theory Spec2Isabelle
  imports Complex_Main
begin

section \<open>Python values and dictionaries\<close>

text \<open>
  The values that travel through \<^verbatim>\<open>VQAEval.eval\<close> untouched (generation keyword
  values, the sample limit, the evaluator's results) are Python objects; the model keeps
  the shapes the code distinguishes.
\<close>

datatype pyval =
    PNone
  | PBool bool
  | PInt int
  | PFloat real
  | PStr string
  | PList "pyval list"
  | PDict "(string \<times> pyval) list"

text \<open>
  A Python \<^verbatim>\<open>dict\<close> keeps insertion order and has one entry per key. It is modelled as
  an association list; \<open>dict_set\<close> is \<^verbatim>\<open>d[k] = v\<close>: an existing key keeps its
  position and takes the new value, a new key goes to the end. \<open>dict_update\<close> is
  \<^verbatim>\<open>d.update(e)\<close>, and also \<^verbatim>\<open>{**d, **e}\<close>.
\<close>

type_synonym ('k, 'v) dict = "('k \<times> 'v) list"

fun dict_set :: "('k, 'v) dict \<Rightarrow> 'k \<Rightarrow> 'v \<Rightarrow> ('k, 'v) dict" where
  "dict_set [] k v = [(k, v)]"
| "dict_set ((k', v') # d) k v =
     (if k' = k then (k', v) # d else (k', v') # dict_set d k v)"

fun dict_update :: "('k, 'v) dict \<Rightarrow> ('k, 'v) dict \<Rightarrow> ('k, 'v) dict" where
  "dict_update d [] = d"
| "dict_update d ((k, v) # e) = dict_update (dict_set d k v) e"

definition dict_get :: "('k, 'v) dict \<Rightarrow> 'k \<Rightarrow> 'v option" where
  "dict_get d k = map_of d k"

definition dict_keys :: "('k, 'v) dict \<Rightarrow> 'k list" where
  "dict_keys d = map fst d"

text \<open>Python's \<^verbatim>\<open>needle in haystack\<close> on two strings: a contiguous substring.\<close>

fun starts_with :: "string \<Rightarrow> string \<Rightarrow> bool" where
  "starts_with [] s = True"
| "starts_with (c # cs) [] = False"
| "starts_with (c # cs) (d # ds) = (c = d \<and> starts_with cs ds)"

fun str_in :: "string \<Rightarrow> string \<Rightarrow> bool" where
  "str_in needle [] = (needle = [])"
| "str_in needle (d # ds) = (starts_with needle (d # ds) \<or> str_in needle ds)"

section \<open>Leaf tasks of the evaluation harness\<close>

text \<open>
  A leaf task is an object of the external harness. The code reaches it only through
  \<^verbatim>\<open>get_config\<close>, \<^verbatim>\<open>set_config\<close>, \<^verbatim>\<open>set_fewshot_seed\<close>, \<^verbatim>\<open>override_metric\<close> and the
  attribute \<^verbatim>\<open>dataset\<close>. The record holds the configuration keys the code reads or
  writes (\<^verbatim>\<open>output_type\<close>, \<^verbatim>\<open>num_fewshot\<close>, \<^verbatim>\<open>generation_kwargs\<close>), the seed handed to
  \<^verbatim>\<open>set_fewshot_seed\<close>, the metrics in force, and the dataset handle.
\<close>

record task =
  output_type :: string
  num_fewshot :: "int option"
  generation_kwargs :: "(string, pyval) dict"
  fewshot_seed :: "int option"
  metric_list :: "string list"
  dataset :: string

text \<open>
  \<^verbatim>\<open>set_config(key='num_fewshot', value=v)\<close> stores the value.
  \<^verbatim>\<open>set_config(key='generation_kwargs', value=g, update=True)\<close> is the harness's update
  mode: it calls \<^verbatim>\<open>update\<close> on the dictionary already stored under the key.
\<close>

definition set_config_num_fewshot :: "int \<Rightarrow> task \<Rightarrow> task" where
  "set_config_num_fewshot v t = t\<lparr>num_fewshot := Some v\<rparr>"

definition set_config_generation_kwargs_update :: "(string, pyval) dict \<Rightarrow> task \<Rightarrow> task" where
  "set_config_generation_kwargs_update g t =
     t\<lparr>generation_kwargs := dict_update (generation_kwargs t) g\<rparr>"

definition set_fewshot_seed :: "int \<Rightarrow> task \<Rightarrow> task" where
  "set_fewshot_seed seed t = t\<lparr>fewshot_seed := Some seed\<rparr>"

definition override_metric :: "string \<Rightarrow> task \<Rightarrow> task" where
  "override_metric metric_name t = t\<lparr>metric_list := [metric_name]\<rparr>"

text \<open>
  An entry of a task dictionary is a nested dictionary (a group), a pair of a group and
  a task that may be \<^verbatim>\<open>None\<close>, or a task object.
\<close>

datatype task_entry =
    Group "(string \<times> task_entry) list"
  | Tup string "task option"
  | Leaf task

section \<open>Effects\<close>

text \<open>
  Log records keep the level and the values interpolated into the message; the fixed
  wording of each message is left out.
\<close>

datatype level = INFO | WARNING

datatype seed_note = Setting_random_seed int | Setting_numpy_seed int | Setting_torch_seed int

datatype message =
    Msg_seeds "seed_note list"
  | Msg_gen_kwargs_cli
  | Msg_output_only string
  | Msg_fewshot_zero string
  | Msg_overwriting string "int option" int
  | Msg_peak_memory real
  | Msg_prefill_average real
  | Msg_decode_average real

text \<open>The model adapter built by the registry, as far as the code looks at it.\<close>

record lm_adapter =
  rank :: int
  task_dict :: "(string, string) dict"
  batch_sizes :: "(string, pyval) dict option"
  has_model :: bool
  chat_template :: string

text \<open>The state \<^verbatim>\<open>_adjust_config\<close> works on: the adapter and the log.\<close>

record adj_state =
  lm :: lm_adapter
  log :: "(level \<times> message) list"

definition logger :: "level \<Rightarrow> message \<Rightarrow> adj_state \<Rightarrow> adj_state" where
  "logger lv m st = st\<lparr>log := log st @ [(lv, m)]\<rparr>"

section \<open>The config adjuster\<close>

text \<open>
  The body of the loop of \<^verbatim>\<open>_adjust_config\<close> for a task object, from
  \<^verbatim>\<open>lm.task_dict[task_name] = task_obj.dataset\<close> to \<^verbatim>\<open>set_fewshot_seed\<close>. The closure's
  free variables \<^verbatim>\<open>gen_kwargs\<close>, \<^verbatim>\<open>predict_only\<close>, \<^verbatim>\<open>num_fewshot\<close> and
  \<^verbatim>\<open>fewshot_random_seed\<close> are parameters. The task object is mutated in place; the model
  returns the new object and the new state.
\<close>

definition adjust_generation :: "(string, pyval) dict option \<Rightarrow> task \<Rightarrow> task" where
  "adjust_generation gen_kwargs task_obj =
     (if str_in ''generate_until'' (output_type task_obj) then
        (case gen_kwargs of
           Some g \<Rightarrow> set_config_generation_kwargs_update g task_obj
         | None \<Rightarrow> task_obj)
      else task_obj)"

definition adjust_metric :: "bool \<Rightarrow> string \<Rightarrow> task \<times> adj_state \<Rightarrow> task \<times> adj_state" where
  "adjust_metric predict_only task_name p =
     (case p of (task_obj, st) \<Rightarrow>
        if predict_only then
          (override_metric ''bypass'' task_obj, logger INFO (Msg_output_only task_name) st)
        else (task_obj, st))"

definition adjust_fewshot :: "int option \<Rightarrow> string \<Rightarrow> task \<times> adj_state \<Rightarrow> task \<times> adj_state" where
  "adjust_fewshot n_fewshot task_name p =
     (case p of (task_obj, st) \<Rightarrow>
        (case n_fewshot of
           Some n \<Rightarrow>
             (let default_num_fewshot = num_fewshot task_obj in
              if default_num_fewshot = Some 0 then
                (task_obj, logger INFO (Msg_fewshot_zero task_name) st)
              else
                (set_config_num_fewshot n task_obj,
                 logger WARNING (Msg_overwriting task_name default_num_fewshot n) st))
         | None \<Rightarrow>
             (let default_num_fewshot = num_fewshot task_obj in
              if default_num_fewshot = None then (set_config_num_fewshot 0 task_obj, st)
              else (task_obj, st))))"

definition adjust_leaf ::
  "(string, pyval) dict option \<Rightarrow> bool \<Rightarrow> int option \<Rightarrow> int \<Rightarrow> string \<Rightarrow> task \<Rightarrow> adj_state
     \<Rightarrow> task \<times> adj_state" where
  "adjust_leaf gen_kwargs predict_only n_fewshot fewshot_random_seed task_name task_obj st =
     (let st1 = st\<lparr>lm := (lm st)\<lparr>task_dict :=
                  dict_set (task_dict (lm st)) task_name (dataset task_obj)\<rparr>\<rparr>;
          t1 = adjust_generation gen_kwargs task_obj;
          p2 = adjust_metric predict_only task_name (t1, st1);
          p3 = adjust_fewshot n_fewshot task_name p2
      in (set_fewshot_seed fewshot_random_seed (fst p3), snd p3))"

text \<open>
  \<^verbatim>\<open>_adjust_config\<close>: the loop over \<^verbatim>\<open>task_dict.items()\<close> with the dictionary built so
  far as accumulator. A nested dictionary is adjusted by the recursive call and merged in
  under its name; a pair whose task is \<^verbatim>\<open>None\<close> is skipped by \<^verbatim>\<open>continue\<close>; a pair with a
  task and a bare task object go through the leaf body and are stored under the name.
\<close>

function adjust_loop ::
  "(string, pyval) dict option \<Rightarrow> bool \<Rightarrow> int option \<Rightarrow> int \<Rightarrow> (string, task_entry) dict
     \<Rightarrow> (string, task_entry) dict \<Rightarrow> adj_state \<Rightarrow> (string, task_entry) dict \<times> adj_state"
  and adjust_config ::
  "(string, pyval) dict option \<Rightarrow> bool \<Rightarrow> int option \<Rightarrow> int \<Rightarrow> (string, task_entry) dict
     \<Rightarrow> adj_state \<Rightarrow> (string, task_entry) dict \<times> adj_state" where
  "adjust_loop gk po nf seed [] adjusted_task_dict st = (adjusted_task_dict, st)"
| "adjust_loop gk po nf seed ((task_name, Group d) # rest) adjusted_task_dict st =
     (case adjust_config gk po nf seed d st of
        (sub, st') \<Rightarrow>
          adjust_loop gk po nf seed rest
            (dict_update adjusted_task_dict [(task_name, Group sub)]) st')"
| "adjust_loop gk po nf seed ((task_name, Tup g None) # rest) adjusted_task_dict st =
     adjust_loop gk po nf seed rest adjusted_task_dict st"
| "adjust_loop gk po nf seed ((task_name, Tup g (Some task_obj)) # rest) adjusted_task_dict st =
     (case adjust_leaf gk po nf seed task_name task_obj st of
        (task_obj', st') \<Rightarrow>
          adjust_loop gk po nf seed rest
            (dict_set adjusted_task_dict task_name (Leaf task_obj')) st')"
| "adjust_loop gk po nf seed ((task_name, Leaf task_obj) # rest) adjusted_task_dict st =
     (case adjust_leaf gk po nf seed task_name task_obj st of
        (task_obj', st') \<Rightarrow>
          adjust_loop gk po nf seed rest
            (dict_set adjusted_task_dict task_name (Leaf task_obj')) st')"
| "adjust_config gk po nf seed d st = adjust_loop gk po nf seed d [] st"
  by pat_completeness auto
termination
  by (relation "measure (\<lambda>x. case x of
        Inl (gk, po, nf, seed, items, acc, st) \<Rightarrow>
          2 * size_list (size_prod (\<lambda>_. 0) size) items
      | Inr (gk, po, nf, seed, d, st) \<Rightarrow>
          2 * size_list (size_prod (\<lambda>_. 0) size) d + 1)") auto

text \<open>
  The task objects of a dictionary, with the names they are stored under, in the order
  the loop meets them. A pair whose task is \<^verbatim>\<open>None\<close> holds no task.
\<close>

function leaves_entry :: "string \<Rightarrow> task_entry \<Rightarrow> (string \<times> task) list"
  and leaves_dict :: "(string, task_entry) dict \<Rightarrow> (string \<times> task) list" where
  "leaves_entry n (Group d) = leaves_dict d"
| "leaves_entry n (Tup g None) = []"
| "leaves_entry n (Tup g (Some t)) = [(n, t)]"
| "leaves_entry n (Leaf t) = [(n, t)]"
| "leaves_dict [] = []"
| "leaves_dict ((n, e) # rest) = leaves_entry n e @ leaves_dict rest"
  by pat_completeness auto
termination
  by (relation "measure (\<lambda>x. case x of
        Inl (n, e) \<Rightarrow> 2 * size e
      | Inr d \<Rightarrow> 2 * size_list (size_prod (\<lambda>_. 0) size) d + 1)") auto

section \<open>Timing instrumentation\<close>

datatype error =
    KeyError string
  | AttributeError string
  | AssertionError
  | ZeroDivisionError
  | ValueError
  | RuntimeError
  | Harness_error string

text \<open>
  The model object, as far as the instrumentation goes: the four counters
  \<^verbatim>\<open>set_statistics_modules\<close> puts on it, the \<^verbatim>\<open>start_time\<close> the pre-call hook stores, and
  the number of hook pairs registered on it so far. Both hooks are registered on \<^verbatim>\<open>model\<close>
  itself, so the hook's \<^verbatim>\<open>module\<close> and the closure's \<^verbatim>\<open>model\<close> are one object. On a model
  never instrumented the counters do not exist; nothing reads them before
  \<^verbatim>\<open>set_statistics_modules\<close> has set them, since only the hooks and the final report do.
\<close>

record stats =
  prefill_count :: int
  prefill_time :: real
  decode_time :: real
  decode_count :: int
  start_time :: "real option"
  hook_pairs :: nat

text \<open>
  An instrumented forward call: its keyword arguments, and what \<^verbatim>\<open>time.time()\<close> returns
  in the \<open>i\<close>-th pre-call hook and in the \<open>i\<close>-th post-call hook that run for it, counted
  from 0 in the order of registration. A tensor is any value but \<open>PNone\<close>.
\<close>

record forward_call =
  kwargs :: "(string, pyval) dict"
  clock_pre :: "nat \<Rightarrow> real"
  clock_post :: "nat \<Rightarrow> real"

text \<open>
  \<^verbatim>\<open>set_statistics_modules(model)\<close>, lines 49 to 56: the four counters are set to zero,
  then a pre-call hook and a post-call hook are registered on the model. The handles of
  the registrations are dropped, so hooks registered by an earlier call stay on the model
  and the new pair is added to them.
\<close>

definition set_statistics_modules :: "stats \<Rightarrow> stats" where
  "set_statistics_modules model =
     model\<lparr>prefill_count := 0, prefill_time := 0, decode_time := 0, decode_count := 0,
           hook_pairs := Suc (hook_pairs model)\<rparr>"

definition start_time_hook :: "stats \<Rightarrow> real \<Rightarrow> stats" where
  "start_time_hook md now = md\<lparr>start_time := Some now\<rparr>"

definition end_time_hook :: "stats \<Rightarrow> (string, pyval) dict \<Rightarrow> real \<Rightarrow> error + stats" where
  "end_time_hook md kw now =
     (case start_time md of
        None \<Rightarrow> Inl (AttributeError ''start_time'')
      | Some t0 \<Rightarrow>
          (let elapsed_prefill = now - t0 in
           case dict_get kw ''inputs_embeds'' of
             None \<Rightarrow> Inl (KeyError ''inputs_embeds'')
           | Some v \<Rightarrow>
               if v \<noteq> PNone then
                 Inr (md\<lparr>prefill_count := prefill_count md + 1,
                             prefill_time := prefill_time md + elapsed_prefill\<rparr>)
               else
                 Inr (md\<lparr>decode_count := decode_count md + 1,
                             decode_time := decode_time md + elapsed_prefill\<rparr>)))"

text \<open>
  One forward call of a model that carries one hook pair: the pre-call hook, the forward
  pass, the post-call hook.
\<close>

definition forward :: "forward_call \<Rightarrow> stats \<Rightarrow> error + stats" where
  "forward c md = end_time_hook (start_time_hook md (clock_pre c 0)) (kwargs c) (clock_post c 0)"

text \<open>
  One forward call of a model with any number of hook pairs: every pre-call hook runs, in
  the order of registration, then the forward pass, then every post-call hook. An
  exception raised by a hook ends the call and leaves the model as it is then.
\<close>

definition pre_hooks :: "forward_call \<Rightarrow> stats \<Rightarrow> stats" where
  "pre_hooks c md = foldl (\<lambda>m i. start_time_hook m (clock_pre c i)) md [0..<hook_pairs md]"

fun post_hooks :: "forward_call \<Rightarrow> nat list \<Rightarrow> stats \<Rightarrow> error option \<times> stats" where
  "post_hooks c [] md = (None, md)"
| "post_hooks c (i # rest) md =
     (case end_time_hook md (kwargs c) (clock_post c i) of
        Inl e \<Rightarrow> (Some e, md)
      | Inr md' \<Rightarrow> post_hooks c rest md')"

definition forward_hooks :: "forward_call \<Rightarrow> stats \<Rightarrow> error option \<times> stats" where
  "forward_hooks c md = post_hooks c [0..<hook_pairs md] (pre_hooks c md)"

text \<open>A run of forward calls; an exception raised by a hook ends the run.\<close>

fun run_calls :: "forward_call list \<Rightarrow> stats \<Rightarrow> error option \<times> stats" where
  "run_calls [] md = (None, md)"
| "run_calls (c # cs) md =
     (case forward_hooks c md of
        (Some e, md') \<Rightarrow> (Some e, md')
      | (None, md') \<Rightarrow> run_calls cs md')"

text \<open>A call "has a non-null embedded-input argument" when the key is there and its value is not \<^verbatim>\<open>None\<close>.\<close>

definition has_inputs_embeds :: "forward_call \<Rightarrow> bool" where
  "has_inputs_embeds c =
     (case dict_get (kwargs c) ''inputs_embeds'' of None \<Rightarrow> False | Some v \<Rightarrow> v \<noteq> PNone)"

definition passes_inputs_embeds :: "forward_call \<Rightarrow> bool" where
  "passes_inputs_embeds c = (dict_get (kwargs c) ''inputs_embeds'' \<noteq> None)"

text \<open>
  With \<open>h\<close> hook pairs, no post-call hook of the call reads the clock below the reading
  its elapsed time is taken from, the one stored by the last pre-call hook.
\<close>

definition clock_forward :: "nat \<Rightarrow> forward_call \<Rightarrow> bool" where
  "clock_forward h c = list_all (\<lambda>i. clock_pre c (h - 1) \<le> clock_post c i) [0..<h]"

text \<open>A model no hook has been registered on.\<close>

definition uninstrumented :: stats where
  "uninstrumented =
     \<lparr>prefill_count = 0, prefill_time = 0, decode_time = 0, decode_count = 0,
      start_time = None, hook_pairs = 0\<rparr>"

section \<open>The evaluation orchestrator\<close>

text \<open>What \<^verbatim>\<open>__init__\<close> reads from the configuration, and the object it builds.\<close>

datatype dataset_name = Name string | Names "string list"

record config =
  config_model_path :: string
  config_eval_name :: dataset_name
  config_eval_path :: string
  config_eval_bs :: int
  config_eval_statistics :: "bool option"

record vqa_eval =
  model_path :: string
  eval_dataset_name :: "string list"
  eval_dataset_path :: string
  eval_bs :: int
  statistics :: bool

definition vqa_eval_init :: "config \<Rightarrow> vqa_eval" where
  "vqa_eval_init c =
     \<lparr>model_path = config_model_path c,
      eval_dataset_name = (case config_eval_name c of Name n \<Rightarrow> [n] | Names ns \<Rightarrow> ns),
      eval_dataset_path = config_eval_path c,
      eval_bs = config_eval_bs c,
      statistics = (case config_eval_statistics c of None \<Rightarrow> False | Some b \<Rightarrow> b)\<rparr>"

record llmc_model =
  eval_name :: string
  vlm_model :: stats

datatype task_manager = TaskManager string string

text \<open>
  The parameters of \<^verbatim>\<open>eval\<close> after \<^verbatim>\<open>llmc_model\<close>, under the source's names with the
  prefix \<open>arg_\<close>. Assigning to a parameter in the body is a record update.
\<close>

record eval_args =
  arg_eval_class :: "string option"
  arg_model_args :: pyval
  arg_tasks :: "string list option"
  arg_num_fewshot :: "int option"
  arg_batch_size :: pyval
  arg_max_batch_size :: "int option"
  arg_device :: "string option"
  arg_use_cache :: "string option"
  arg_cache_requests :: bool
  arg_rewrite_requests_cache :: bool
  arg_delete_requests_cache :: bool
  arg_limit :: pyval
  arg_bootstrap_iters :: int
  arg_check_integrity :: bool
  arg_write_out :: bool
  arg_log_samples :: bool
  arg_evaluation_tracker :: "string option"
  arg_system_instruction :: "string option"
  arg_apply_chat_template :: bool
  arg_fewshot_as_multiturn :: bool
  arg_gen_kwargs :: "string option"
  arg_task_manager :: "task_manager option"
  arg_verbosity :: string
  arg_predict_only :: bool
  arg_random_seed :: "int option"
  arg_numpy_random_seed :: "int option"
  arg_torch_random_seed :: "int option"
  arg_fewshot_random_seed :: int
  arg_datetime_str :: string
  arg_cli_args :: pyval

text \<open>The keyword arguments \<^verbatim>\<open>evaluate\<close> is called with, besides \<^verbatim>\<open>lm\<close> and \<^verbatim>\<open>task_dict\<close>.\<close>

record evaluate_opts =
  opt_limit :: pyval
  opt_cache_requests :: bool
  opt_rewrite_requests_cache :: bool
  opt_bootstrap_iters :: int
  opt_write_out :: bool
  opt_log_samples :: bool
  opt_system_instruction :: "string option"
  opt_apply_chat_template :: bool
  opt_fewshot_as_multiturn :: bool
  opt_verbosity :: string
  opt_cli_args :: pyval

text \<open>What the run does to the world outside, in order.\<close>

datatype event =
    Log level message
  | Random_seed int
  | Np_random_seed int
  | Torch_manual_seed int
  | Get_task_dict "string list option" task_manager
  | Register_forward_hooks
  | Reset_peak_memory_stats
  | Create_from_arg_string string pyval pyval "string option"
  | Run_task_tests "string list option"
  | Log_experiment_args string pyval "string option" "string option" bool
  | Evaluate lm_adapter "(string \<times> task_entry) list" evaluate_opts
  | Del_model
  | Empty_cache

text \<open>
  The collaborators the code calls and does not define: the argument-string parser, the
  task registry, the model registry (a constructor per registered name, taking the model
  arguments, the batch size and the device), the integrity tests, the evaluator, the
  table formatter, and the accelerator's peak-memory reading. A collaborator that can
  raise returns the exception as a value. The evaluator returns, with its outcome, the
  forward calls it made on the model.
\<close>

record env =
  simple_parse_args_string :: "string \<Rightarrow> (string, pyval) dict"
  get_task_dict :: "string list option \<Rightarrow> task_manager \<Rightarrow> error + (string, task_entry) dict"
  MODEL_REGISTRY :: "string \<Rightarrow> (pyval \<Rightarrow> pyval \<Rightarrow> string option \<Rightarrow> error + lm_adapter) option"
  run_task_tests :: "string list option \<Rightarrow> error option"
  evaluate ::
    "lm_adapter \<Rightarrow> (string, task_entry) dict \<Rightarrow> evaluate_opts
       \<Rightarrow> forward_call list \<times> (error + (string, pyval) dict)"
  make_table :: "(string, pyval) dict \<Rightarrow> string"
  max_memory_allocated :: real

text \<open>
  Lines 103 to 118: the three seeds, each optional, and the one log line that lists them.
  \<^verbatim>\<open>random.seed\<close> takes any integer. \<^verbatim>\<open>np.random.seed\<close> raises \<^verbatim>\<open>ValueError\<close> for a seed
  outside \<open>0 .. 2^32 - 1\<close>, and \<^verbatim>\<open>torch.manual_seed\<close> raises \<^verbatim>\<open>RuntimeError\<close> for a seed
  outside \<open>-2^63 .. 2^64 - 1\<close>; either ends the call before the log line.
\<close>

definition np_random_seed_accepts :: "int \<Rightarrow> bool" where
  "np_random_seed_accepts s = (0 \<le> s \<and> s < 2 ^ 32)"

definition torch_manual_seed_accepts :: "int \<Rightarrow> bool" where
  "torch_manual_seed_accepts s = (- (2 ^ 63) \<le> s \<and> s < 2 ^ 64)"

definition seed_log :: "seed_note list \<times> event list \<Rightarrow> error option \<times> event list" where
  "seed_log p3 =
     (None, if fst p3 \<noteq> [] then snd p3 @ [Log INFO (Msg_seeds (fst p3))] else snd p3)"

definition seed_torch :: "eval_args \<Rightarrow> seed_note list \<times> event list \<Rightarrow> error option \<times> event list" where
  "seed_torch args p2 =
     (case arg_torch_random_seed args of
        Some s \<Rightarrow>
          if torch_manual_seed_accepts s then
            seed_log (fst p2 @ [Setting_torch_seed s], snd p2 @ [Torch_manual_seed s])
          else (Some RuntimeError, snd p2)
      | None \<Rightarrow> seed_log p2)"

definition seed_phase :: "eval_args \<Rightarrow> error option \<times> event list" where
  "seed_phase args =
     (let p1 = (case arg_random_seed args of
                  Some s \<Rightarrow> ([Setting_random_seed s], [Random_seed s])
                | None \<Rightarrow> ([], []))
      in case arg_numpy_random_seed args of
           Some s \<Rightarrow>
             if np_random_seed_accepts s then
               seed_torch args (fst p1 @ [Setting_numpy_seed s], snd p1 @ [Np_random_seed s])
             else (Some ValueError, snd p1)
         | None \<Rightarrow> seed_torch args p1)"

text \<open>
  Lines 124 to 128. A non-empty string is parsed into a dictionary (which never equals
  \<^verbatim>\<open>''\<close>, so it is never reset to \<^verbatim>\<open>None\<close>); \<^verbatim>\<open>None\<close> and the empty string stay as they
  are.
\<close>

definition parse_gen_kwargs :: "env \<Rightarrow> string option \<Rightarrow> pyval \<times> event list" where
  "parse_gen_kwargs env gen_kwargs =
     (case gen_kwargs of
        None \<Rightarrow> (PNone, [])
      | Some s \<Rightarrow>
          if s \<noteq> [] then
            (PDict (simple_parse_args_string env s), [Log WARNING Msg_gen_kwargs_cli])
          else (PStr [], []))"

text \<open>
  What \<^verbatim>\<open>_adjust_config\<close> sees in \<^verbatim>\<open>gen_kwargs\<close>: \<^verbatim>\<open>None\<close> fails the test
  \<^verbatim>\<open>gen_kwargs is not None\<close>; a dictionary is the override; the empty string passes the
  test and \<^verbatim>\<open>update('')\<close> adds no entry.
\<close>

definition gen_kwargs_override :: "pyval \<Rightarrow> (string, pyval) dict option" where
  "gen_kwargs_override gen_kwargs =
     (case gen_kwargs of PNone \<Rightarrow> None | PDict d \<Rightarrow> Some d | _ \<Rightarrow> Some [])"

definition evaluate_kwargs :: "eval_args \<Rightarrow> evaluate_opts" where
  "evaluate_kwargs args =
     \<lparr>opt_limit = arg_limit args,
      opt_cache_requests = arg_cache_requests args,
      opt_rewrite_requests_cache = arg_rewrite_requests_cache args,
      opt_bootstrap_iters = arg_bootstrap_iters args,
      opt_write_out = arg_write_out args,
      opt_log_samples = (if arg_predict_only args then True else arg_log_samples args),
      opt_system_instruction = arg_system_instruction args,
      opt_apply_chat_template = arg_apply_chat_template args,
      opt_fewshot_as_multiturn = arg_fewshot_as_multiturn args,
      opt_verbosity = arg_verbosity args,
      opt_cli_args = arg_cli_args args\<rparr>"

text \<open>Lines 248 to 259: the averages, read from the model's counters after the run.\<close>

definition statistics_report :: "env \<Rightarrow> stats \<Rightarrow> error + event list" where
  "statistics_report env md =
     (if prefill_count md = 0 then Inl ZeroDivisionError
      else if decode_count md = 0 then Inl ZeroDivisionError
      else
        (let prefill = prefill_time md / real_of_int (prefill_count md);
             decode = decode_time md / real_of_int (decode_count md);
             gen_max_mem = max_memory_allocated env / 1024 / 1024
         in Inr [Log INFO (Msg_peak_memory gen_max_mem),
                 Log INFO (Msg_prefill_average (prefill * 1000)),
                 Log INFO (Msg_decode_average (decode * 1000))]))"

text \<open>Lines 266 to 304: the report the rank-0 process returns.\<close>

definition opt_str :: "string option \<Rightarrow> pyval" where
  "opt_str x = (case x of None \<Rightarrow> PNone | Some s \<Rightarrow> PStr s)"

definition opt_int :: "int option \<Rightarrow> pyval" where
  "opt_int x = (case x of None \<Rightarrow> PNone | Some i \<Rightarrow> PInt i)"

definition report_config ::
  "eval_args \<Rightarrow> string \<Rightarrow> pyval \<Rightarrow> pyval \<Rightarrow> lm_adapter \<Rightarrow> (string, pyval) dict" where
  "report_config args model_name model_args gen_kwargs lm_obj =
     dict_update
       [(''model'', PStr model_name), (''model_args'', model_args)]
       [(''batch_size'', arg_batch_size args),
        (''batch_sizes'',
           (case batch_sizes lm_obj of Some b \<Rightarrow> PList (map snd b) | None \<Rightarrow> PList [])),
        (''device'', opt_str (arg_device args)),
        (''use_cache'', opt_str (arg_use_cache args)),
        (''limit'', arg_limit args),
        (''bootstrap_iters'', PInt (arg_bootstrap_iters args)),
        (''gen_kwargs'', gen_kwargs),
        (''random_seed'', opt_int (arg_random_seed args)),
        (''numpy_seed'', opt_int (arg_numpy_random_seed args)),
        (''torch_seed'', opt_int (arg_torch_random_seed args)),
        (''fewshot_seed'', PInt (arg_fewshot_random_seed args))]"

definition final_results ::
  "eval_args \<Rightarrow> string \<Rightarrow> pyval \<Rightarrow> pyval \<Rightarrow> lm_adapter \<Rightarrow> (string, pyval) dict
     \<Rightarrow> (string, pyval) dict" where
  "final_results args model model_args gen_kwargs lm_obj results =
     dict_set
       (dict_set results ''config'' (PDict (report_config args model model_args gen_kwargs lm_obj)))
       ''date'' (PStr (arg_datetime_str args))"

definition assemble ::
  "env \<Rightarrow> eval_args \<Rightarrow> string \<Rightarrow> pyval \<Rightarrow> pyval \<Rightarrow> lm_adapter \<Rightarrow> (string, pyval) dict
     \<Rightarrow> string option" where
  "assemble env args model model_args gen_kwargs lm_obj results =
     (if rank lm_obj = 0 then
        Some (CHR 0x0A # make_table env (final_results args model model_args gen_kwargs lm_obj results))
      else None)"

text \<open>
  Lines 218 to 306: from \<^verbatim>\<open>_adjust_config\<close> to the return, once the adapter exists.
  The forward calls the evaluator makes go through every hook pair the model carries,
  whether this call registered one or an earlier call did.
\<close>

definition eval_with_lm ::
  "env \<Rightarrow> vqa_eval \<Rightarrow> eval_args \<Rightarrow> string \<Rightarrow> pyval \<Rightarrow> pyval \<Rightarrow> (string, task_entry) dict
     \<Rightarrow> lm_adapter \<Rightarrow> stats \<Rightarrow> event list \<Rightarrow> (error + string option) \<times> event list \<times> stats" where
  "eval_with_lm env self args model model_args gen_kwargs task_dict0 lm0 md0 tr =
     (case adjust_config (gen_kwargs_override gen_kwargs) (arg_predict_only args)
             (arg_num_fewshot args) (arg_fewshot_random_seed args) task_dict0
             \<lparr>lm = lm0, log = []\<rparr> of
        (task_dict1, st) \<Rightarrow>
          (let lm1 = lm st;
               tr1 = tr @ map (\<lambda>(lv, m). Log lv m) (log st);
               tr2 = (if arg_check_integrity args then tr1 @ [Run_task_tests (arg_tasks args)]
                      else tr1)
           in case (if arg_check_integrity args then run_task_tests env (arg_tasks args)
                    else None) of
                Some e \<Rightarrow> (Inl e, tr2, md0)
              | None \<Rightarrow>
                  (let tr3 = (case arg_evaluation_tracker args of
                                None \<Rightarrow> tr2
                              | Some tracker \<Rightarrow>
                                  tr2 @ [Log_experiment_args model model_args
                                           (arg_system_instruction args)
                                           (if arg_apply_chat_template args
                                            then Some (chat_template lm1) else None)
                                           (arg_fewshot_as_multiturn args)]);
                       tr4 = tr3 @ [Evaluate lm1 task_dict1 (evaluate_kwargs args)]
                   in case evaluate env lm1 task_dict1 (evaluate_kwargs args) of
                        (calls, outcome) \<Rightarrow>
                          (case run_calls calls md0 of
                             (Some e, md1) \<Rightarrow> (Inl e, tr4, md1)
                           | (None, md1) \<Rightarrow>
                               (case outcome of
                                  Inl e \<Rightarrow> (Inl e, tr4, md1)
                                | Inr results \<Rightarrow>
                                    (case (if statistics self then statistics_report env md1
                                           else Inr []) of
                                       Inl e \<Rightarrow> (Inl e, tr4, md1)
                                     | Inr ev \<Rightarrow>
                                         (let tr5 = tr4 @ ev;
                                              tr6 = (if has_model lm1
                                                     then tr5 @ [Del_model, Empty_cache] else tr5)
                                          in (Inr (assemble env args model model_args gen_kwargs
                                                     lm1 results), tr6, md1))))))))"

text \<open>
  Lines 103 to 149: seeds, the assertion, the task lookup, the hooks, the adapter. The
  third component of the result is the caller's model object as the call leaves it.
\<close>

definition eval_body ::
  "env \<Rightarrow> vqa_eval \<Rightarrow> llmc_model \<Rightarrow> eval_args
     \<Rightarrow> (error + string option) \<times> event list \<times> stats" where
  "eval_body env self llmc args =
     (let model = eval_name llmc in
      case seed_phase args of
        (Some e, tr1) \<Rightarrow> (Inl e, tr1, vlm_model llmc)
      | (None, tr1) \<Rightarrow>
          if arg_tasks args = Some [] then (Inl AssertionError, tr1, vlm_model llmc)
          else
            (case parse_gen_kwargs env (arg_gen_kwargs args) of
               (gen_kwargs, ev) \<Rightarrow>
                 (let tr2 = tr1 @ ev;
                      model_args = (if arg_model_args args = PNone then PStr []
                                    else arg_model_args args);
                      tm = (case arg_task_manager args of
                              None \<Rightarrow> TaskManager (arg_verbosity args) model
                            | Some m \<Rightarrow> m);
                      tr3 = tr2 @ [Get_task_dict (arg_tasks args) tm]
                  in case get_task_dict env (arg_tasks args) tm of
                       Inl e \<Rightarrow> (Inl e, tr3, vlm_model llmc)
                     | Inr task_dict0 \<Rightarrow>
                         (let md0 = (if statistics self
                                     then set_statistics_modules (vlm_model llmc)
                                     else vlm_model llmc);
                              tr4 = (if statistics self
                                     then tr3 @ [Register_forward_hooks, Reset_peak_memory_stats]
                                     else tr3)
                          in case MODEL_REGISTRY env model of
                               None \<Rightarrow> (Inl (KeyError model), tr4, md0)
                             | Some cls \<Rightarrow>
                                 (let tr5 = tr4 @ [Create_from_arg_string model model_args
                                                     (arg_batch_size args) (arg_device args)]
                                  in case cls model_args (arg_batch_size args) (arg_device args) of
                                       Inl e \<Rightarrow> (Inl e, tr5, md0)
                                     | Inr lm0 \<Rightarrow>
                                         eval_with_lm env self args model model_args gen_kwargs
                                           task_dict0 lm0 md0 tr5)))))"

text \<open>
  Lines 98 to 101 assign to four of the parameters before anything reads them:
  \<^verbatim>\<open>model_args\<close>, \<^verbatim>\<open>batch_size\<close>, \<^verbatim>\<open>tasks\<close> and \<^verbatim>\<open>num_fewshot\<close>.
\<close>

definition rebind :: "vqa_eval \<Rightarrow> eval_args \<Rightarrow> eval_args" where
  "rebind self args =
     args\<lparr>arg_model_args := PStr (''pretrained='' @ model_path self @ '',device_map=auto''),
          arg_batch_size := PInt (eval_bs self),
          arg_tasks := Some (eval_dataset_name self),
          arg_num_fewshot := Some 0\<rparr>"

text \<open>
  \<^verbatim>\<open>VQAEval.eval\<close>: the rest of the body runs on the parameters so rebound. \<open>eval_run\<close>
  gives what the call returns or raises, what it does to the world outside, and the
  model object afterwards; \<open>eval\<close> is the first two and \<open>eval_model\<close> the third.
\<close>

definition eval_run ::
  "env \<Rightarrow> vqa_eval \<Rightarrow> llmc_model \<Rightarrow> eval_args
     \<Rightarrow> (error + string option) \<times> event list \<times> stats" where
  "eval_run env self llmc args = eval_body env self llmc (rebind self args)"

definition eval :: "env \<Rightarrow> vqa_eval \<Rightarrow> llmc_model \<Rightarrow> eval_args \<Rightarrow> (error + string option) \<times> event list" where
  "eval env self llmc args =
     (fst (eval_run env self llmc args), fst (snd (eval_run env self llmc args)))"

definition eval_model :: "env \<Rightarrow> vqa_eval \<Rightarrow> llmc_model \<Rightarrow> eval_args \<Rightarrow> stats" where
  "eval_model env self llmc args = snd (snd (eval_run env self llmc args))"

definition seeds_accepted :: "eval_args \<Rightarrow> bool" where
  "seeds_accepted args =
     ((case arg_numpy_random_seed args of Some s \<Rightarrow> np_random_seed_accepts s | None \<Rightarrow> True)
      \<and> (case arg_torch_random_seed args of Some s \<Rightarrow> torch_manual_seed_accepts s | None \<Rightarrow> True))"

text \<open>The defaults of the signature of \<^verbatim>\<open>eval\<close>; \<^verbatim>\<open>datetime_str\<close> defaults to the time of definition.\<close>

definition default_args :: "string \<Rightarrow> eval_args" where
  "default_args datetime =
     \<lparr>arg_eval_class = None,
      arg_model_args = PNone,
      arg_tasks = None,
      arg_num_fewshot = None,
      arg_batch_size = PNone,
      arg_max_batch_size = None,
      arg_device = None,
      arg_use_cache = None,
      arg_cache_requests = False,
      arg_rewrite_requests_cache = False,
      arg_delete_requests_cache = False,
      arg_limit = PNone,
      arg_bootstrap_iters = 100000,
      arg_check_integrity = False,
      arg_write_out = False,
      arg_log_samples = True,
      arg_evaluation_tracker = None,
      arg_system_instruction = None,
      arg_apply_chat_template = False,
      arg_fewshot_as_multiturn = False,
      arg_gen_kwargs = None,
      arg_task_manager = None,
      arg_verbosity = ''INFO'',
      arg_predict_only = False,
      arg_random_seed = Some 0,
      arg_numpy_random_seed = Some 1234,
      arg_torch_random_seed = Some 1234,
      arg_fewshot_random_seed = 1234,
      arg_datetime_str = datetime,
      arg_cli_args = PNone\<rparr>"

section \<open>Notions the properties are stated with\<close>

text \<open>
  A dictionary has one entry per key, at every level of nesting.
\<close>

function wf_entry :: "task_entry \<Rightarrow> bool"
  and wf_dict :: "(string, task_entry) dict \<Rightarrow> bool" where
  "wf_entry (Group d) = wf_dict d"
| "wf_entry (Tup g t) = True"
| "wf_entry (Leaf t) = True"
| "wf_dict [] = True"
| "wf_dict ((n, e) # rest) = (n \<notin> set (dict_keys rest) \<and> wf_entry e \<and> wf_dict rest)"
  by pat_completeness auto
termination
  by (relation "measure (\<lambda>x. case x of
        Inl e \<Rightarrow> 2 * size e
      | Inr d \<Rightarrow> 2 * size_list (size_prod (\<lambda>_. 0) size) d + 1)") auto

text \<open>
  The specification's reading of the adjuster, for comparison with \<open>adjust_config\<close>: a
  structural transform that rebuilds each group under its name from its children, leaves
  out a child that holds no task, applies the leaf rule \<open>f\<close> to each task, and keeps
  the order of the entries.
\<close>

function reconstruct :: "(task \<Rightarrow> task) \<Rightarrow> (string, task_entry) dict \<Rightarrow> (string, task_entry) dict" where
  "reconstruct f [] = []"
| "reconstruct f ((n, Group d) # rest) = (n, Group (reconstruct f d)) # reconstruct f rest"
| "reconstruct f ((n, Tup g None) # rest) = reconstruct f rest"
| "reconstruct f ((n, Tup g (Some t)) # rest) = (n, Leaf (f t)) # reconstruct f rest"
| "reconstruct f ((n, Leaf t) # rest) = (n, Leaf (f t)) # reconstruct f rest"
  by pat_completeness auto
termination
  by (relation "measure (\<lambda>(f, d). size_list (size_prod (\<lambda>_. 0) size) d)") auto

definition tombstoned :: "task_entry \<Rightarrow> bool" where
  "tombstoned e = (case e of Tup g None \<Rightarrow> True | _ \<Rightarrow> False)"

text \<open>
  The specification's few-shot resolution policy, first match first: no override and no
  default gives 0; an override and a default of exactly 0 stays 0; an override otherwise
  wins; no override and a default keeps the default.
\<close>

definition spec_fewshot :: "int option \<Rightarrow> int option \<Rightarrow> int option" where
  "spec_fewshot override dflt =
     (if override = None \<and> dflt = None then Some 0
      else if override \<noteq> None \<and> dflt = Some 0 then Some 0
      else if override \<noteq> None then override
      else dflt)"

text \<open>The leaf a task object becomes, as a function of the task alone.\<close>

definition adjusted_task ::
  "(string, pyval) dict option \<Rightarrow> bool \<Rightarrow> int option \<Rightarrow> int \<Rightarrow> task \<Rightarrow> task" where
  "adjusted_task gen_kwargs predict_only n_fewshot fewshot_random_seed t =
     (adjust_generation gen_kwargs t)
       \<lparr>num_fewshot := spec_fewshot n_fewshot (num_fewshot t),
        fewshot_seed := Some fewshot_random_seed,
        metric_list := (if predict_only then [''bypass''] else metric_list t)\<rparr>"

text \<open>The visit of one task object, as a step on the state.\<close>

definition visit ::
  "(string, pyval) dict option \<Rightarrow> bool \<Rightarrow> int option \<Rightarrow> int \<Rightarrow> adj_state \<Rightarrow> string \<times> task
     \<Rightarrow> adj_state" where
  "visit gk po nf seed st p = snd (adjust_leaf gk po nf seed (fst p) (snd p) st)"

text \<open>The calls of the external evaluator in a trace, and the events of the seeding phase.\<close>

fun evaluate_calls :: "event list \<Rightarrow> (lm_adapter \<times> (string, task_entry) dict \<times> evaluate_opts) list" where
  "evaluate_calls [] = []"
| "evaluate_calls (Evaluate l td ops # es) = (l, td, ops) # evaluate_calls es"
| "evaluate_calls (e # es) = evaluate_calls es"

fun seeding_event :: "event \<Rightarrow> bool" where
  "seeding_event (Random_seed s) = True"
| "seeding_event (Np_random_seed s) = True"
| "seeding_event (Torch_manual_seed s) = True"
| "seeding_event (Log lv (Msg_seeds ns)) = True"
| "seeding_event e = False"

fun sets_seed :: "event \<Rightarrow> bool" where
  "sets_seed (Random_seed s) = True"
| "sets_seed (Np_random_seed s) = True"
| "sets_seed (Torch_manual_seed s) = True"
| "sets_seed e = False"

text \<open>
  The adapters a trace constructs (with the model arguments and the batch size handed to
  the constructor) and the task lists it looks up.
\<close>

fun created_with :: "event list \<Rightarrow> (pyval \<times> pyval) list" where
  "created_with [] = []"
| "created_with (Create_from_arg_string m ma bs dev # es) = (ma, bs) # created_with es"
| "created_with (e # es) = created_with es"

fun looked_up :: "event list \<Rightarrow> string list option list" where
  "looked_up [] = []"
| "looked_up (Get_task_dict ts tm # es) = ts # looked_up es"
| "looked_up (e # es) = looked_up es"

text \<open>
  An event agrees with given evaluator options, model arguments, batch size and task list,
  and every task object handed to the evaluator satisfies \<open>Q\<close>.
\<close>

fun event_inv ::
  "(task \<Rightarrow> bool) \<Rightarrow> evaluate_opts \<Rightarrow> pyval \<Rightarrow> pyval \<Rightarrow> string list option \<Rightarrow> event \<Rightarrow> bool" where
  "event_inv Q ops0 ma0 bs0 ts0 (Evaluate l td ops) =
     (ops = ops0 \<and> list_all (\<lambda>(n, t). Q t) (leaves_dict td))"
| "event_inv Q ops0 ma0 bs0 ts0 (Create_from_arg_string m ma bs dev) = (ma = ma0 \<and> bs = bs0)"
| "event_inv Q ops0 ma0 bs0 ts0 (Get_task_dict ts tm) = (ts = ts0)"
| "event_inv Q ops0 ma0 bs0 ts0 e = True"

section \<open>Sample inputs\<close>

text \<open>Concrete tasks, a task dictionary and an adapter, on which the theorems are instantiated.\<close>

definition example_task :: task where
  "example_task =
     \<lparr>output_type = ''generate_until'', num_fewshot = None,
      generation_kwargs = [(''until'', PList [PStr ''###'']), (''max_new_tokens'', PInt 32)],
      fewshot_seed = None, metric_list = [''exact_match''], dataset = ''ds_a''\<rparr>"

definition example_zero_task :: task where
  "example_zero_task =
     \<lparr>output_type = ''multiple_choice'', num_fewshot = Some 0, generation_kwargs = [],
      fewshot_seed = None, metric_list = [''acc''], dataset = ''ds_b''\<rparr>"

definition example_tree :: "(string, task_entry) dict" where
  "example_tree =
     [(''grp'', Group [(''taskA'', Leaf example_task), (''gone'', Tup ''grp'' None)]),
      (''taskB'', Tup ''grp2'' (Some example_zero_task))]"

definition example_lm :: lm_adapter where
  "example_lm = \<lparr>rank = 0, task_dict = [], batch_sizes = None, has_model = True,
                  chat_template = ''''\<rparr>"

definition example_state :: adj_state where
  "example_state = \<lparr>lm = example_lm, log = []\<rparr>"

definition example_override :: "(string, pyval) dict" where
  "example_override = [(''max_new_tokens'', PInt 64)]"

definition prefill_call :: forward_call where
  "prefill_call = \<lparr>kwargs = [(''inputs_embeds'', PList [PFloat 1]), (''use_cache'', PBool True)],
                    clock_pre = (\<lambda>i. 10), clock_post = (\<lambda>i. 12)\<rparr>"

definition decode_call :: forward_call where
  "decode_call = \<lparr>kwargs = [(''input_ids'', PList [PInt 7]), (''inputs_embeds'', PNone)],
                   clock_pre = (\<lambda>i. 12), clock_post = (\<lambda>i. 13)\<rparr>"

definition keyless_call :: forward_call where
  "keyless_call = \<lparr>kwargs = [(''input_ids'', PList [PInt 7])],
                    clock_pre = (\<lambda>i. 12), clock_post = (\<lambda>i. 13)\<rparr>"

definition backward_clock_call :: forward_call where
  "backward_clock_call = \<lparr>kwargs = [(''inputs_embeds'', PNone)],
                           clock_pre = (\<lambda>i. 5), clock_post = (\<lambda>i. 3)\<rparr>"

definition example_env :: env where
  "example_env =
     \<lparr>simple_parse_args_string = (\<lambda>s. [(''max_new_tokens'', PInt 64)]),
      get_task_dict = (\<lambda>ts tm. Inr example_tree),
      MODEL_REGISTRY = (\<lambda>name. if name = ''llava'' then Some (\<lambda>ma bs dev. Inr example_lm)
                               else None),
      run_task_tests = (\<lambda>ts. None),
      evaluate = (\<lambda>l td ops. ([prefill_call, decode_call, decode_call],
                               Inr [(''results'', PDict [(''taskA'', PFloat 0.5)])])),
      make_table = (\<lambda>res. concat (map (\<lambda>(k, v). CHR ''|'' # k) res)),
      max_memory_allocated = 2097152\<rparr>"

definition example_config :: config where
  "example_config =
     \<lparr>config_model_path = ''/models/x'', config_eval_name = Name ''taskA'',
      config_eval_path = ''/data'', config_eval_bs = 4, config_eval_statistics = None\<rparr>"

definition example_empty_config :: config where
  "example_empty_config =
     \<lparr>config_model_path = ''/models/x'', config_eval_name = Names [],
      config_eval_path = ''/data'', config_eval_bs = 4, config_eval_statistics = None\<rparr>"

definition example_llmc :: llmc_model where
  "example_llmc = \<lparr>eval_name = ''llava'', vlm_model = uninstrumented\<rparr>"


section \<open>Properties of the config adjuster\<close>

subsection \<open>Auxiliary facts\<close>

lemma adjust_leaf_task:
  "fst (adjust_leaf gk po nf seed n t st) = adjusted_task gk po nf seed t"
  by (cases nf)
     (auto simp: adjust_leaf_def adjusted_task_def adjust_metric_def adjust_fewshot_def
        spec_fewshot_def set_fewshot_seed_def set_config_num_fewshot_def override_metric_def
        adjust_generation_def set_config_generation_kwargs_update_def Let_def
        split: option.splits)

lemma leaves_dict_append: "leaves_dict (a @ b) = leaves_dict a @ leaves_dict b"
  by (induction a) auto

lemma dict_set_fresh: "k \<notin> set (dict_keys d) \<Longrightarrow> dict_set d k v = d @ [(k, v)]"
  by (induction d) (auto simp: dict_keys_def)

lemma leaves_dict_set:
  "set (leaves_dict (dict_set d k v)) \<subseteq> set (leaves_dict d) \<union> set (leaves_entry k v)"
  by (induction d) (auto split: if_splits)

lemma adjust_state:
  "snd (adjust_loop gk po nf seed items acc st) = foldl (visit gk po nf seed) st (leaves_dict items)"
  "snd (adjust_config gk po nf seed d st) = foldl (visit gk po nf seed) st (leaves_dict d)"
proof (induction gk po nf seed items acc st and gk po nf seed d st
    rule: adjust_loop_adjust_config.induct)
  case (2 gk po nf seed task_name d rest acc st)
  obtain sub st' where r: "adjust_config gk po nf seed d st = (sub, st')"
    by (cases "adjust_config gk po nf seed d st")
  from 2(1) r have s: "st' = foldl (visit gk po nf seed) st (leaves_dict d)" by simp
  show ?case using 2(2)[OF r[symmetric]] r s by simp
next
  case (3 gk po nf seed task_name g rest acc st)
  then show ?case by simp
next
  case (4 gk po nf seed task_name g task_obj rest acc st)
  obtain t' st' where r: "adjust_leaf gk po nf seed task_name task_obj st = (t', st')"
    by (cases "adjust_leaf gk po nf seed task_name task_obj st")
  show ?case using 4(1)[OF r[symmetric]] r by (simp add: visit_def)
next
  case (5 gk po nf seed task_name task_obj rest acc st)
  obtain t' st' where r: "adjust_leaf gk po nf seed task_name task_obj st = (t', st')"
    by (cases "adjust_leaf gk po nf seed task_name task_obj st")
  show ?case using 5(1)[OF r[symmetric]] r by (simp add: visit_def)
next
  case (6 gk po nf seed d st)
  then show ?case by simp
qed simp

lemma keys_reconstruct_subset: "set (dict_keys (reconstruct f d)) \<subseteq> set (dict_keys d)"
  by (induction f d rule: reconstruct.induct) (auto simp: dict_keys_def)

lemma adjust_shape:
  "wf_dict items \<Longrightarrow> set (dict_keys acc) \<inter> set (dict_keys items) = {} \<Longrightarrow>
     fst (adjust_loop gk po nf seed items acc st)
       = acc @ reconstruct (adjusted_task gk po nf seed) items"
  "wf_dict d \<Longrightarrow>
     fst (adjust_config gk po nf seed d st) = reconstruct (adjusted_task gk po nf seed) d"
proof (induction gk po nf seed items acc st and gk po nf seed d st
    rule: adjust_loop_adjust_config.induct)
  case (1 gk po nf seed acc st)
  then show ?case by simp
next
  case (2 gk po nf seed task_name d rest acc st)
  obtain sub st' where r: "adjust_config gk po nf seed d st = (sub, st')"
    by (cases "adjust_config gk po nf seed d st")
  from 2 have wf: "wf_dict d" "wf_dict rest" "task_name \<notin> set (dict_keys rest)" by auto
  from 2(4) have fresh: "task_name \<notin> set (dict_keys acc)" by (auto simp: dict_keys_def)
  from 2(1)[OF wf(1)] r have sub: "sub = reconstruct (adjusted_task gk po nf seed) d" by simp
  have disj: "set (dict_keys (acc @ [(task_name, Group sub)])) \<inter> set (dict_keys rest) = {}"
    using 2(4) wf(3) by (auto simp: dict_keys_def)
  have "fst (adjust_loop gk po nf seed rest (acc @ [(task_name, Group sub)]) st')
      = (acc @ [(task_name, Group sub)]) @ reconstruct (adjusted_task gk po nf seed) rest"
    using 2(2)[OF r[symmetric] wf(2)] disj fresh by (simp add: dict_set_fresh)
  then show ?case using r sub fresh by (simp add: dict_set_fresh)
next
  case (3 gk po nf seed task_name g rest acc st)
  then show ?case by (auto simp: dict_keys_def)
next
  case (4 gk po nf seed task_name g task_obj rest acc st)
  obtain t' st' where r: "adjust_leaf gk po nf seed task_name task_obj st = (t', st')"
    by (cases "adjust_leaf gk po nf seed task_name task_obj st")
  then have t': "t' = adjusted_task gk po nf seed task_obj"
    using adjust_leaf_task[of gk po nf seed task_name task_obj st] by simp
  from 4 have wf: "wf_dict rest" "task_name \<notin> set (dict_keys rest)" by auto
  from 4(3) have fresh: "task_name \<notin> set (dict_keys acc)" by (auto simp: dict_keys_def)
  have disj: "set (dict_keys (acc @ [(task_name, Leaf t')])) \<inter> set (dict_keys rest) = {}"
    using 4(3) wf(2) by (auto simp: dict_keys_def)
  have "fst (adjust_loop gk po nf seed rest (acc @ [(task_name, Leaf t')]) st')
      = (acc @ [(task_name, Leaf t')]) @ reconstruct (adjusted_task gk po nf seed) rest"
    using 4(1)[OF r[symmetric] wf(1)] disj fresh by (simp add: dict_set_fresh)
  then show ?case using r t' fresh by (simp add: dict_set_fresh)
next
  case (5 gk po nf seed task_name task_obj rest acc st)
  obtain t' st' where r: "adjust_leaf gk po nf seed task_name task_obj st = (t', st')"
    by (cases "adjust_leaf gk po nf seed task_name task_obj st")
  then have t': "t' = adjusted_task gk po nf seed task_obj"
    using adjust_leaf_task[of gk po nf seed task_name task_obj st] by simp
  from 5 have wf: "wf_dict rest" "task_name \<notin> set (dict_keys rest)" by auto
  from 5(3) have fresh: "task_name \<notin> set (dict_keys acc)" by (auto simp: dict_keys_def)
  have disj: "set (dict_keys (acc @ [(task_name, Leaf t')])) \<inter> set (dict_keys rest) = {}"
    using 5(3) wf(2) by (auto simp: dict_keys_def)
  have "fst (adjust_loop gk po nf seed rest (acc @ [(task_name, Leaf t')]) st')
      = (acc @ [(task_name, Leaf t')]) @ reconstruct (adjusted_task gk po nf seed) rest"
    using 5(1)[OF r[symmetric] wf(1)] disj fresh by (simp add: dict_set_fresh)
  then show ?case using r t' fresh by (simp add: dict_set_fresh)
next
  case (6 gk po nf seed d st)
  then show ?case by (simp add: dict_keys_def)
qed

lemma leaves_reconstruct:
  "leaves_dict (reconstruct f d) = map (\<lambda>(n, t). (n, f t)) (leaves_dict d)"
  by (induction f d rule: reconstruct.induct) auto

lemma keys_reconstruct:
  "dict_keys (reconstruct f d) = dict_keys (filter (\<lambda>(n, e). \<not> tombstoned e) d)"
  by (induction f d rule: reconstruct.induct) (auto simp: dict_keys_def tombstoned_def)

lemma adjust_leaves_subset:
  "set (leaves_dict (fst (adjust_loop gk po nf seed items acc st)))
     \<subseteq> set (leaves_dict acc) \<union> (\<lambda>(n, t). (n, adjusted_task gk po nf seed t)) ` set (leaves_dict items)"
  "set (leaves_dict (fst (adjust_config gk po nf seed d st)))
     \<subseteq> (\<lambda>(n, t). (n, adjusted_task gk po nf seed t)) ` set (leaves_dict d)"
proof (induction gk po nf seed items acc st and gk po nf seed d st
    rule: adjust_loop_adjust_config.induct)
  case (2 gk po nf seed task_name d rest acc st)
  obtain sub st' where r: "adjust_config gk po nf seed d st = (sub, st')"
    by (cases "adjust_config gk po nf seed d st")
  have a: "set (leaves_dict (dict_set acc task_name (Group sub)))
             \<subseteq> set (leaves_dict acc) \<union> set (leaves_dict sub)"
    using leaves_dict_set[of acc task_name "Group sub"] by simp
  show ?case using 2(1) 2(2)[OF r[symmetric]] r a by (simp add: image_Un) blast
next
  case (4 gk po nf seed task_name g task_obj rest acc st)
  obtain t' st' where r: "adjust_leaf gk po nf seed task_name task_obj st = (t', st')"
    by (cases "adjust_leaf gk po nf seed task_name task_obj st")
  then have t': "t' = adjusted_task gk po nf seed task_obj"
    using adjust_leaf_task[of gk po nf seed task_name task_obj st] by simp
  have a: "set (leaves_dict (dict_set acc task_name (Leaf t')))
             \<subseteq> set (leaves_dict acc) \<union> {(task_name, t')}"
    using leaves_dict_set[of acc task_name "Leaf t'"] by simp
  show ?case using 4(1)[OF r[symmetric]] r a t' by simp blast
next
  case (5 gk po nf seed task_name task_obj rest acc st)
  obtain t' st' where r: "adjust_leaf gk po nf seed task_name task_obj st = (t', st')"
    by (cases "adjust_leaf gk po nf seed task_name task_obj st")
  then have t': "t' = adjusted_task gk po nf seed task_obj"
    using adjust_leaf_task[of gk po nf seed task_name task_obj st] by simp
  have a: "set (leaves_dict (dict_set acc task_name (Leaf t')))
             \<subseteq> set (leaves_dict acc) \<union> {(task_name, t')}"
    using leaves_dict_set[of acc task_name "Leaf t'"] by simp
  show ?case using 5(1)[OF r[symmetric]] r a t' by simp blast
qed auto

lemma spec_fewshot_defined: "spec_fewshot nf d \<noteq> None"
  by (auto simp: spec_fewshot_def)

lemma adjusted_task_fields:
  "num_fewshot (adjusted_task gk po nf seed t) = spec_fewshot nf (num_fewshot t)"
  "fewshot_seed (adjusted_task gk po nf seed t) = Some seed"
  "metric_list (adjusted_task gk po nf seed t) = (if po then [''bypass''] else metric_list t)"
  "generation_kwargs (adjusted_task gk po nf seed t) = generation_kwargs (adjust_generation gk t)"
  by (simp_all add: adjusted_task_def)

lemma adjust_generation_frame:
  "num_fewshot (adjust_generation gk t) = num_fewshot t"
  "output_type (adjust_generation gk t) = output_type t"
  by (auto simp: adjust_generation_def set_config_generation_kwargs_update_def split: option.splits)

text \<open>
  C1. For every task dictionary, however nested, and every choice of the overrides, each
  task object of the dictionary \<^verbatim>\<open>_adjust_config\<close> returns has a few-shot count that is
  not \<^verbatim>\<open>None\<close> and has the few-shot seed \<^verbatim>\<open>fewshot_random_seed\<close>.
\<close>

theorem adjust_config_postcondition:
  "list_all (\<lambda>(n, t). num_fewshot t \<noteq> None \<and> fewshot_seed t = Some seed)
     (leaves_dict (fst (adjust_config gk po nf seed d st)))"
proof -
  have "\<forall>p \<in> set (leaves_dict (fst (adjust_config gk po nf seed d st))).
          num_fewshot (snd p) \<noteq> None \<and> fewshot_seed (snd p) = Some seed"
  proof
    fix p assume "p \<in> set (leaves_dict (fst (adjust_config gk po nf seed d st)))"
    with adjust_leaves_subset(2)[of gk po nf seed d st]
    obtain n t where "p = (n, adjusted_task gk po nf seed t)" by auto
    then show "num_fewshot (snd p) \<noteq> None \<and> fewshot_seed (snd p) = Some seed"
      by (simp add: adjusted_task_fields spec_fewshot_defined)
  qed
  then show ?thesis by (auto simp: list_all_iff)
qed


lemma example_adjusted:
  "adjust_config None False None 1234 example_tree example_state =
    ([(''grp'', Group [(''taskA'', Leaf (example_task\<lparr>num_fewshot := Some 0, fewshot_seed := Some 1234\<rparr>))]),
      (''taskB'', Leaf (example_zero_task\<lparr>fewshot_seed := Some 1234\<rparr>))],
     \<lparr>lm = example_lm\<lparr>task_dict := [(''taskA'', ''ds_a''), (''taskB'', ''ds_b'')]\<rparr>, log = []\<rparr>)"
  by (simp add: example_tree_def example_state_def example_task_def example_zero_task_def
      example_lm_def adjust_leaf_def adjust_generation_def adjust_metric_def adjust_fewshot_def
      set_fewshot_seed_def set_config_num_fewshot_def Let_def)

theorem adjust_config_postcondition_witness:
  "leaves_dict (fst (adjust_config None False None 1234 example_tree example_state)) =
     [(''taskA'', example_task\<lparr>num_fewshot := Some 0, fewshot_seed := Some 1234\<rparr>),
      (''taskB'', example_zero_task\<lparr>fewshot_seed := Some 1234\<rparr>)]
   \<and> list_all (\<lambda>(n, t). num_fewshot t \<noteq> None \<and> fewshot_seed t = Some 1234)
        (leaves_dict (fst (adjust_config None False None 1234 example_tree example_state)))"
  using adjust_config_postcondition[of 1234 None False None example_tree example_state]
  unfolding example_adjusted by simp

lemma adjust_leaf_log:
  "log (snd (adjust_leaf gk po nf seed n t st)) =
     log st @ (if po then [(INFO, Msg_output_only n)] else [])
       @ (case nf of
            Some k \<Rightarrow> (if num_fewshot t = Some 0 then [(INFO, Msg_fewshot_zero n)]
                       else [(WARNING, Msg_overwriting n (num_fewshot t) k)])
          | None \<Rightarrow> [])"
  by (cases nf)
     (auto simp: adjust_leaf_def adjust_metric_def adjust_fewshot_def logger_def Let_def
        override_metric_def adjust_generation_frame)

lemma visit_log_mono: "set (log st) \<subseteq> set (log (visit gk po nf seed st p))"
  by (auto simp: visit_def adjust_leaf_log)

lemma foldl_visit_log_mono: "set (log st) \<subseteq> set (log (foldl (visit gk po nf seed) st ps))"
proof (induction ps arbitrary: st)
  case Nil
  show ?case by simp
next
  case (Cons p ps)
  have "set (log st) \<subseteq> set (log (visit gk po nf seed st p))" by (rule visit_log_mono)
  also have "\<dots> \<subseteq> set (log (foldl (visit gk po nf seed) (visit gk po nf seed st p) ps))"
    by (rule Cons.IH)
  finally show ?case by simp
qed

lemma foldl_visit_zero_notice:
  "(n, t) \<in> set ps \<Longrightarrow> num_fewshot t = Some 0 \<Longrightarrow>
     (INFO, Msg_fewshot_zero n) \<in> set (log (foldl (visit gk po (Some k) seed) st ps))"
proof (induction ps arbitrary: st)
  case Nil
  then show ?case by simp
next
  case (Cons p ps)
  show ?case
  proof (cases "p = (n, t)")
    case True
    then have "(INFO, Msg_fewshot_zero n) \<in> set (log (visit gk po (Some k) seed st p))"
      using Cons.prems(2) by (simp add: visit_def adjust_leaf_log)
    then show ?thesis
      using foldl_visit_log_mono[of "visit gk po (Some k) seed st p" gk po "Some k" seed ps]
      by auto
  next
    case False
    then have "(n, t) \<in> set ps" using Cons.prems(1) by simp
    then show ?thesis using Cons.IH Cons.prems(2) by simp
  qed
qed

text \<open>
  C4. A task object whose configured few-shot count is exactly 0 keeps the count 0 when a
  global override \<open>k\<close> is supplied, and the visit logs one informational notice for it
  (after the output-only notice, when \<^verbatim>\<open>predict_only\<close> is set). The notice is in the log
  of \<^verbatim>\<open>_adjust_config\<close> for every dictionary that holds the task.
\<close>

theorem explicit_zero_shot_kept:
  assumes "num_fewshot t = Some 0"
  shows "num_fewshot (fst (adjust_leaf gk po (Some k) seed n t st)) = Some 0
       \<and> log (snd (adjust_leaf gk po (Some k) seed n t st)) =
           log st @ (if po then [(INFO, Msg_output_only n)] else []) @ [(INFO, Msg_fewshot_zero n)]
       \<and> ((n, t) \<in> set (leaves_dict d) \<longrightarrow>
            (INFO, Msg_fewshot_zero n) \<in> set (log (snd (adjust_config gk po (Some k) seed d st'))))"
proof (intro conjI impI)
  show "num_fewshot (fst (adjust_leaf gk po (Some k) seed n t st)) = Some 0"
    using assms by (simp add: adjust_leaf_task adjusted_task_fields spec_fewshot_def)
  show "log (snd (adjust_leaf gk po (Some k) seed n t st)) =
           log st @ (if po then [(INFO, Msg_output_only n)] else []) @ [(INFO, Msg_fewshot_zero n)]"
    using assms by (simp add: adjust_leaf_log)
  assume "(n, t) \<in> set (leaves_dict d)"
  then show "(INFO, Msg_fewshot_zero n) \<in> set (log (snd (adjust_config gk po (Some k) seed d st')))"
    using assms unfolding adjust_state(2) by (rule foldl_visit_zero_notice)
qed

lemma example_leaves:
  "leaves_dict example_tree = [(''taskA'', example_task), (''taskB'', example_zero_task)]"
  by (simp add: example_tree_def)

theorem explicit_zero_shot_kept_witness:
  "num_fewshot example_zero_task = Some 0
   \<and> num_fewshot (fst (adjust_leaf None True (Some 5) 1234 ''taskB'' example_zero_task example_state)) = Some 0
   \<and> log (snd (adjust_leaf None True (Some 5) 1234 ''taskB'' example_zero_task example_state)) =
       [(INFO, Msg_output_only ''taskB''), (INFO, Msg_fewshot_zero ''taskB'')]
   \<and> (INFO, Msg_fewshot_zero ''taskB'')
       \<in> set (log (snd (adjust_config None True (Some 5) 1234 example_tree example_state)))"
proof -
  have z: "num_fewshot example_zero_task = Some 0" by (simp add: example_zero_task_def)
  have m: "(''taskB'', example_zero_task) \<in> set (leaves_dict example_tree)"
    by (simp add: example_leaves)
  show ?thesis
    using z m explicit_zero_shot_kept[OF z, of None True 5 1234 "''taskB''" example_state
        example_tree example_state]
    by (simp add: example_state_def)
qed

lemma map_of_dict_set: "map_of (dict_set d k v) x = (if x = k then Some v else map_of d x)"
  by (induction d) auto

lemma map_of_dict_update:
  "map_of (dict_update d e) x =
     (case map_of (rev e) x of Some v \<Rightarrow> Some v | None \<Rightarrow> map_of d x)"
proof (induction e arbitrary: d)
  case Nil
  show ?case by simp
next
  case (Cons p e)
  obtain k v where p: "p = (k, v)" by (cases p)
  show ?case
    using Cons.IH[of "dict_set d k v"] p
    by (auto simp: map_of_dict_set map_add_def split: option.splits)
qed

lemma map_of_rev_distinct: "distinct (map fst e) \<Longrightarrow> map_of (rev e) = map_of e"
  by (rule map_of_inject_set[THEN iffD2]) (auto simp: rev_map[symmetric])

lemma dict_get_update:
  "distinct (dict_keys g) \<Longrightarrow>
     dict_get (dict_update d g) k =
       (case dict_get g k of Some v \<Rightarrow> Some v | None \<Rightarrow> dict_get d k)"
  by (simp add: dict_get_def dict_keys_def map_of_dict_update map_of_rev_distinct
      split: option.splits)

text \<open>
  C5, as the code has it. For a task whose output type contains \<^verbatim>\<open>generate_until\<close> and an
  override \<open>g\<close>, the generation parameters after the visit are the former ones updated
  with \<open>g\<close>: a key of \<open>g\<close> has the value \<open>g\<close> gives it, and every former entry under
  another key is still there. They are not replaced by \<open>g\<close>, as the sample task shows.
\<close>

theorem generation_kwargs_updated:
  assumes "str_in ''generate_until'' (output_type t)" and "distinct (dict_keys g)"
  shows "generation_kwargs (fst (adjust_leaf (Some g) po nf seed n t st))
           = dict_update (generation_kwargs t) g
       \<and> dict_get (generation_kwargs (fst (adjust_leaf (Some g) po nf seed n t st))) k
           = (case dict_get g k of Some v \<Rightarrow> Some v | None \<Rightarrow> dict_get (generation_kwargs t) k)"
proof -
  have "generation_kwargs (fst (adjust_leaf (Some g) po nf seed n t st))
          = dict_update (generation_kwargs t) g"
    using assms(1)
    by (simp add: adjust_leaf_task adjusted_task_fields adjust_generation_def
        set_config_generation_kwargs_update_def)
  then show ?thesis using assms(2) by (simp add: dict_get_update)
qed

theorem generation_kwargs_updated_witness:
  "str_in ''generate_until'' (output_type example_task) \<and> distinct (dict_keys example_override)
   \<and> generation_kwargs (fst (adjust_leaf (Some example_override) False None 1234 ''taskA''
        example_task example_state))
       = [(''until'', PList [PStr ''###'']), (''max_new_tokens'', PInt 64)]
   \<and> dict_get (generation_kwargs (fst (adjust_leaf (Some example_override) False None 1234
        ''taskA'' example_task example_state))) ''until'' = Some (PList [PStr ''###''])"
proof -
  have a: "str_in ''generate_until'' (output_type example_task)"
    by (simp add: example_task_def)
  have b: "distinct (dict_keys example_override)"
    by (simp add: example_override_def dict_keys_def)
  show ?thesis
    using a b generation_kwargs_updated[OF a b, of False None 1234 "''taskA''" example_state "''until''"]
    by (simp add: example_task_def example_override_def dict_get_def)
qed

theorem generation_kwargs_not_replaced:
  "str_in ''generate_until'' (output_type example_task)
   \<and> generation_kwargs (fst (adjust_leaf (Some example_override) False None 1234 ''taskA''
        example_task example_state)) \<noteq> example_override
   \<and> (''until'', PList [PStr ''###''])
       \<in> set (generation_kwargs (fst (adjust_leaf (Some example_override) False None 1234
            ''taskA'' example_task example_state)))"
  by (simp add: adjust_leaf_task adjusted_task_fields adjust_generation_def
      set_config_generation_kwargs_update_def example_task_def example_override_def)

text \<open>
  C9. On a dictionary with one entry per key at every level, \<^verbatim>\<open>_adjust_config\<close> is the
  structural transform \<open>reconstruct\<close>: each group is rebuilt under its name, an entry
  whose task is \<^verbatim>\<open>None\<close> is left out, and the other entries keep their order. The task
  objects of the result are the adjusted task objects of the input, one for one and in
  the same order, and the final state is the state after visiting each task object of
  the input once, in that order.
\<close>

theorem adjust_config_reconstructs:
  assumes "wf_dict d"
  shows "fst (adjust_config gk po nf seed d st) = reconstruct (adjusted_task gk po nf seed) d
       \<and> dict_keys (fst (adjust_config gk po nf seed d st))
           = dict_keys (filter (\<lambda>(n, e). \<not> tombstoned e) d)
       \<and> leaves_dict (fst (adjust_config gk po nf seed d st))
           = map (\<lambda>(n, t). (n, fst (adjust_leaf gk po nf seed n t st'))) (leaves_dict d)
       \<and> snd (adjust_config gk po nf seed d st)
           = foldl (\<lambda>s (n, t). snd (adjust_leaf gk po nf seed n t s)) st (leaves_dict d)"
proof -
  have shape: "fst (adjust_config gk po nf seed d st) = reconstruct (adjusted_task gk po nf seed) d"
    using assms by (rule adjust_shape(2))
  have v: "visit gk po nf seed = (\<lambda>s (n, t). snd (adjust_leaf gk po nf seed n t s))"
    by (auto simp: fun_eq_iff visit_def)
  have "snd (adjust_config gk po nf seed d st)
          = foldl (\<lambda>s (n, t). snd (adjust_leaf gk po nf seed n t s)) st (leaves_dict d)"
    using adjust_state(2)[of gk po nf seed d st] unfolding v .
  then show ?thesis
    unfolding shape by (simp add: keys_reconstruct leaves_reconstruct adjust_leaf_task)
qed

lemma example_wf: "wf_dict example_tree"
  by (simp add: example_tree_def dict_keys_def)

theorem adjust_config_reconstructs_witness:
  "wf_dict example_tree
   \<and> fst (adjust_config None False None 1234 example_tree example_state)
       = [(''grp'', Group [(''taskA'', Leaf (adjusted_task None False None 1234 example_task))]),
          (''taskB'', Leaf (adjusted_task None False None 1234 example_zero_task))]
   \<and> dict_keys (fst (adjust_config None False None 1234 example_tree example_state))
       = [''grp'', ''taskB'']
   \<and> map fst (leaves_dict (fst (adjust_config None False None 1234 example_tree example_state)))
       = [''taskA'', ''taskB'']"
  using example_wf
    adjust_config_reconstructs[OF example_wf, of None False None 1234 example_state example_state]
  by (simp add: example_tree_def dict_keys_def tombstoned_def del: adjust_config.simps)

section \<open>Properties of the timing instrumentation\<close>

lemma forward_cases:
  "forward c md =
     (case dict_get (kwargs c) ''inputs_embeds'' of
        None \<Rightarrow> Inl (KeyError ''inputs_embeds'')
      | Some v \<Rightarrow>
          if v \<noteq> PNone then
            Inr (md\<lparr>start_time := Some (clock_pre c 0),
                    prefill_count := prefill_count md + 1,
                    prefill_time := prefill_time md + (clock_post c 0 - clock_pre c 0)\<rparr>)
          else
            Inr (md\<lparr>start_time := Some (clock_pre c 0),
                    decode_count := decode_count md + 1,
                    decode_time := decode_time md + (clock_post c 0 - clock_pre c 0)\<rparr>))"
  by (simp add: forward_def end_time_hook_def start_time_hook_def Let_def split: option.splits)

lemma foldl_start_time_hook:
  "foldl (\<lambda>m i. start_time_hook m (clock_pre c i)) md [0..<n] =
     (if n = 0 then md else md\<lparr>start_time := Some (clock_pre c (n - 1))\<rparr>)"
  by (induction n) (auto simp: start_time_hook_def)

lemma pre_hooks_eq:
  "pre_hooks c md =
     (if hook_pairs md = 0 then md
      else md\<lparr>start_time := Some (clock_pre c (hook_pairs md - 1))\<rparr>)"
  by (simp add: pre_hooks_def foldl_start_time_hook)

lemma post_hooks_ok:
  assumes "start_time md = Some t0" and "dict_get (kwargs c) ''inputs_embeds'' = Some v"
  shows "\<exists>md'. post_hooks c ns md = (None, md')
       \<and> hook_pairs md' = hook_pairs md
       \<and> prefill_count md' = prefill_count md + (if v \<noteq> PNone then int (length ns) else 0)
       \<and> decode_count md' = decode_count md + (if v \<noteq> PNone then 0 else int (length ns))
       \<and> (list_all (\<lambda>i. t0 \<le> clock_post c i) ns \<longrightarrow>
            prefill_time md \<le> prefill_time md' \<and> decode_time md \<le> decode_time md')"
  using assms(1)
proof (induction ns arbitrary: md)
  case Nil
  show ?case by simp
next
  case (Cons i ns)
  let ?m = "if v \<noteq> PNone
            then md\<lparr>prefill_count := prefill_count md + 1,
                    prefill_time := prefill_time md + (clock_post c i - t0)\<rparr>
            else md\<lparr>decode_count := decode_count md + 1,
                    decode_time := decode_time md + (clock_post c i - t0)\<rparr>"
  have e: "end_time_hook md (kwargs c) (clock_post c i) = Inr ?m"
    using Cons.prems assms(2) by (simp add: end_time_hook_def Let_def)
  have st: "start_time ?m = Some t0" using Cons.prems by simp
  from Cons.IH[OF st] obtain md' where m: "post_hooks c ns ?m = (None, md')"
    "hook_pairs md' = hook_pairs ?m"
    "prefill_count md' = prefill_count ?m + (if v \<noteq> PNone then int (length ns) else 0)"
    "decode_count md' = decode_count ?m + (if v \<noteq> PNone then 0 else int (length ns))"
    "list_all (\<lambda>i. t0 \<le> clock_post c i) ns \<longrightarrow>
       prefill_time ?m \<le> prefill_time md' \<and> decode_time ?m \<le> decode_time md'"
    by blast
  have "post_hooks c (i # ns) md = (None, md')" using e m(1) by simp
  moreover have "hook_pairs md' = hook_pairs md" using m(2) by simp
  moreover have "prefill_count md'
      = prefill_count md + (if v \<noteq> PNone then int (length (i # ns)) else 0)"
    using m(3) by simp
  moreover have "decode_count md'
      = decode_count md + (if v \<noteq> PNone then 0 else int (length (i # ns)))"
    using m(4) by simp
  moreover have "list_all (\<lambda>i. t0 \<le> clock_post c i) (i # ns) \<longrightarrow>
      prefill_time md \<le> prefill_time md' \<and> decode_time md \<le> decode_time md'"
    using m(5) by (cases "v \<noteq> PNone") auto
  ultimately show ?case by blast
qed

lemma forward_hooks_ok:
  assumes "passes_inputs_embeds c"
  shows "\<exists>md'. forward_hooks c md = (None, md')
       \<and> hook_pairs md' = hook_pairs md
       \<and> prefill_count md' = prefill_count md
            + (if has_inputs_embeds c then int (hook_pairs md) else 0)
       \<and> decode_count md' = decode_count md
            + (if has_inputs_embeds c then 0 else int (hook_pairs md))
       \<and> (clock_forward (hook_pairs md) c \<longrightarrow>
            prefill_time md \<le> prefill_time md' \<and> decode_time md \<le> decode_time md')"
proof (cases "hook_pairs md = 0")
  case True
  then have "forward_hooks c md = (None, md)" by (simp add: forward_hooks_def pre_hooks_eq)
  then show ?thesis using True by simp
next
  case False
  from assms obtain v where v: "dict_get (kwargs c) ''inputs_embeds'' = Some v"
    by (auto simp: passes_inputs_embeds_def)
  let ?p = "pre_hooks c md"
  have st: "start_time ?p = Some (clock_pre c (hook_pairs md - 1))"
    using False by (simp add: pre_hooks_eq)
  have f: "hook_pairs ?p = hook_pairs md" "prefill_count ?p = prefill_count md"
    "decode_count ?p = decode_count md" "prefill_time ?p = prefill_time md"
    "decode_time ?p = decode_time md"
    by (simp_all add: pre_hooks_eq)
  have h: "has_inputs_embeds c = (v \<noteq> PNone)" using v by (simp add: has_inputs_embeds_def)
  from post_hooks_ok[OF st v, of "[0..<hook_pairs md]"] obtain md' where
    "post_hooks c [0..<hook_pairs md] ?p = (None, md')"
    "hook_pairs md' = hook_pairs ?p"
    "prefill_count md' = prefill_count ?p
       + (if v \<noteq> PNone then int (length [0..<hook_pairs md]) else 0)"
    "decode_count md' = decode_count ?p
       + (if v \<noteq> PNone then 0 else int (length [0..<hook_pairs md]))"
    "list_all (\<lambda>i. clock_pre c (hook_pairs md - 1) \<le> clock_post c i) [0..<hook_pairs md] \<longrightarrow>
       prefill_time ?p \<le> prefill_time md' \<and> decode_time ?p \<le> decode_time md'"
    by blast
  then show ?thesis
    unfolding forward_hooks_def clock_forward_def using f h by auto
qed

lemma forward_hooks_keyless:
  assumes "0 < hook_pairs md" and "\<not> passes_inputs_embeds c"
  shows "fst (forward_hooks c md) = Some (KeyError ''inputs_embeds'')"
proof -
  have u: "[0..<hook_pairs md] = 0 # [Suc 0..<hook_pairs md]"
    using assms(1) by (simp add: upt_conv_Cons)
  have "end_time_hook (pre_hooks c md) (kwargs c) (clock_post c 0)
          = Inl (KeyError ''inputs_embeds'')"
    using assms by (simp add: pre_hooks_eq end_time_hook_def passes_inputs_embeds_def Let_def)
  then show ?thesis unfolding forward_hooks_def u by simp
qed

lemma run_calls_ok:
  "list_all passes_inputs_embeds cs \<Longrightarrow>
     \<exists>md'. run_calls cs md = (None, md')
       \<and> hook_pairs md' = hook_pairs md
       \<and> prefill_count md' = prefill_count md
            + int (hook_pairs md) * int (length (filter has_inputs_embeds cs))
       \<and> decode_count md' = decode_count md
            + int (hook_pairs md) * (int (length cs) - int (length (filter has_inputs_embeds cs)))
       \<and> (list_all (clock_forward (hook_pairs md)) cs \<longrightarrow>
            prefill_time md \<le> prefill_time md' \<and> decode_time md \<le> decode_time md')"
proof (induction cs arbitrary: md)
  case Nil
  show ?case by simp
next
  case (Cons c cs)
  from Cons.prems have p: "passes_inputs_embeds c" and ps: "list_all passes_inputs_embeds cs"
    by simp_all
  from forward_hooks_ok[OF p, of md] obtain m1 where m1: "forward_hooks c md = (None, m1)"
    "hook_pairs m1 = hook_pairs md"
    "prefill_count m1 = prefill_count md
        + (if has_inputs_embeds c then int (hook_pairs md) else 0)"
    "decode_count m1 = decode_count md
        + (if has_inputs_embeds c then 0 else int (hook_pairs md))"
    "clock_forward (hook_pairs md) c \<longrightarrow>
        prefill_time md \<le> prefill_time m1 \<and> decode_time md \<le> decode_time m1"
    by blast
  from Cons.IH[OF ps, of m1] obtain m2 where m2: "run_calls cs m1 = (None, m2)"
    "hook_pairs m2 = hook_pairs m1"
    "prefill_count m2 = prefill_count m1
        + int (hook_pairs m1) * int (length (filter has_inputs_embeds cs))"
    "decode_count m2 = decode_count m1
        + int (hook_pairs m1) * (int (length cs) - int (length (filter has_inputs_embeds cs)))"
    "list_all (clock_forward (hook_pairs m1)) cs \<longrightarrow>
        prefill_time m1 \<le> prefill_time m2 \<and> decode_time m1 \<le> decode_time m2"
    by blast
  have "run_calls (c # cs) md = (None, m2)" using m1(1) m2(1) by simp
  moreover have "hook_pairs m2 = hook_pairs md" using m1(2) m2(2) by simp
  moreover have "prefill_count m2 = prefill_count md
      + int (hook_pairs md) * int (length (filter has_inputs_embeds (c # cs)))"
    using m1(2,3) m2(3) by (simp add: algebra_simps)
  moreover have "decode_count m2 = decode_count md
      + int (hook_pairs md)
          * (int (length (c # cs)) - int (length (filter has_inputs_embeds (c # cs))))"
    using m1(2,4) m2(4) by (simp add: algebra_simps)
  moreover have "list_all (clock_forward (hook_pairs md)) (c # cs) \<longrightarrow>
      prefill_time md \<le> prefill_time m2 \<and> decode_time md \<le> decode_time m2"
    using m1(2,5) m2(5) by auto
  ultimately show ?case by blast
qed

lemma run_calls_append:
  "run_calls (xs @ ys) md =
     (case run_calls xs md of (Some e, md') \<Rightarrow> (Some e, md') | (None, md') \<Rightarrow> run_calls ys md')"
  by (induction xs arbitrary: md) (auto split: prod.splits option.splits)

lemma run_calls_keyless:
  "0 < hook_pairs md \<Longrightarrow> \<not> list_all passes_inputs_embeds cs \<Longrightarrow>
     fst (run_calls cs md) = Some (KeyError ''inputs_embeds'')"
proof (induction cs arbitrary: md)
  case Nil
  then show ?case by simp
next
  case (Cons c cs)
  show ?case
  proof (cases "passes_inputs_embeds c")
    case True
    from forward_hooks_ok[OF True, of md] obtain m1 where m1: "forward_hooks c md = (None, m1)"
      "hook_pairs m1 = hook_pairs md" by blast
    have "\<not> list_all passes_inputs_embeds cs" using Cons.prems(2) True by simp
    then have "fst (run_calls cs m1) = Some (KeyError ''inputs_embeds'')"
      using Cons.IH[of m1] Cons.prems(1) m1(2) by simp
    then show ?thesis using m1(1) by simp
  next
    case False
    from forward_hooks_keyless[OF Cons.prems(1) False]
    show ?thesis by (cases "forward_hooks c md") (auto split: option.splits)
  qed
qed

lemma set_statistics_modules_fields:
  "prefill_count (set_statistics_modules model) = 0"
  "decode_count (set_statistics_modules model) = 0"
  "prefill_time (set_statistics_modules model) = 0"
  "decode_time (set_statistics_modules model) = 0"
  "hook_pairs (set_statistics_modules model) = Suc (hook_pairs model)"
  by (simp_all add: set_statistics_modules_def)

text \<open>
  C2, as the code has it. \<^verbatim>\<open>set_statistics_modules\<close> zeroes the four counters and adds a
  hook pair to the pairs already on the model, \<open>h\<close> pairs in all afterwards (one on a model
  not instrumented before). For a run whose forward calls all pass the key
  \<^verbatim>\<open>inputs_embeds\<close> (possibly as \<^verbatim>\<open>None\<close>), the hooks raise nothing, and each call is counted
  once per pair: the prefill count is \<open>h * K\<close> for the \<open>K\<close> calls with a value other than
  \<^verbatim>\<open>None\<close>, the decode count \<open>h * (N - K)\<close>; on a first installation they are \<open>K\<close> and
  \<open>N - K\<close>. When no post-call hook reads the clock below the reading of the last pre-call
  hook of the same call, both cumulative times are non-negative and do not decrease from
  any prefix \<open>xs\<close> of the run to the whole run. A run with a call that lacks the key ends
  with \<^verbatim>\<open>KeyError\<close>.
\<close>

theorem instrumentation_counters:
  "(list_all passes_inputs_embeds (xs @ ys) \<longrightarrow>
      (\<exists>s1 s2.
           run_calls xs (set_statistics_modules model) = (None, s1)
         \<and> run_calls (xs @ ys) (set_statistics_modules model) = (None, s2)
         \<and> prefill_count s2
             = int (Suc (hook_pairs model)) * int (length (filter has_inputs_embeds (xs @ ys)))
         \<and> decode_count s2
             = int (Suc (hook_pairs model))
                 * (int (length (xs @ ys)) - int (length (filter has_inputs_embeds (xs @ ys))))
         \<and> (hook_pairs model = 0 \<longrightarrow>
              prefill_count s2 = int (length (filter has_inputs_embeds (xs @ ys)))
            \<and> decode_count s2
                = int (length (xs @ ys)) - int (length (filter has_inputs_embeds (xs @ ys))))
         \<and> (list_all (clock_forward (Suc (hook_pairs model))) (xs @ ys) \<longrightarrow>
              0 \<le> prefill_time s1 \<and> prefill_time s1 \<le> prefill_time s2
            \<and> 0 \<le> decode_time s1 \<and> decode_time s1 \<le> decode_time s2)))
   \<and> prefill_count (set_statistics_modules model) = 0
   \<and> decode_count (set_statistics_modules model) = 0
   \<and> prefill_time (set_statistics_modules model) = 0
   \<and> decode_time (set_statistics_modules model) = 0
   \<and> (\<not> list_all passes_inputs_embeds cs \<longrightarrow>
        fst (run_calls cs (set_statistics_modules model)) = Some (KeyError ''inputs_embeds''))"
proof -
  let ?init = "set_statistics_modules model"
  let ?h = "Suc (hook_pairs model)"
  note z = set_statistics_modules_fields[of model]
  have A: "\<exists>s1 s2.
           run_calls xs ?init = (None, s1)
         \<and> run_calls (xs @ ys) ?init = (None, s2)
         \<and> prefill_count s2 = int ?h * int (length (filter has_inputs_embeds (xs @ ys)))
         \<and> decode_count s2
             = int ?h * (int (length (xs @ ys)) - int (length (filter has_inputs_embeds (xs @ ys))))
         \<and> (hook_pairs model = 0 \<longrightarrow>
              prefill_count s2 = int (length (filter has_inputs_embeds (xs @ ys)))
            \<and> decode_count s2
                = int (length (xs @ ys)) - int (length (filter has_inputs_embeds (xs @ ys))))
         \<and> (list_all (clock_forward ?h) (xs @ ys) \<longrightarrow>
              0 \<le> prefill_time s1 \<and> prefill_time s1 \<le> prefill_time s2
            \<and> 0 \<le> decode_time s1 \<and> decode_time s1 \<le> decode_time s2)"
    if all: "list_all passes_inputs_embeds (xs @ ys)"
  proof -
    from all have px: "list_all passes_inputs_embeds xs" and py: "list_all passes_inputs_embeds ys"
      by simp_all
    from run_calls_ok[OF px, of ?init] obtain s1 where s1: "run_calls xs ?init = (None, s1)"
      "hook_pairs s1 = hook_pairs ?init"
      "prefill_count s1 = prefill_count ?init
          + int (hook_pairs ?init) * int (length (filter has_inputs_embeds xs))"
      "decode_count s1 = decode_count ?init
          + int (hook_pairs ?init) * (int (length xs) - int (length (filter has_inputs_embeds xs)))"
      "list_all (clock_forward (hook_pairs ?init)) xs \<longrightarrow>
          prefill_time ?init \<le> prefill_time s1 \<and> decode_time ?init \<le> decode_time s1"
      by blast
    from run_calls_ok[OF py, of s1] obtain s2 where s2: "run_calls ys s1 = (None, s2)"
      "prefill_count s2 = prefill_count s1
          + int (hook_pairs s1) * int (length (filter has_inputs_embeds ys))"
      "decode_count s2 = decode_count s1
          + int (hook_pairs s1) * (int (length ys) - int (length (filter has_inputs_embeds ys)))"
      "list_all (clock_forward (hook_pairs s1)) ys \<longrightarrow>
          prefill_time s1 \<le> prefill_time s2 \<and> decode_time s1 \<le> decode_time s2"
      by blast
    have hs: "hook_pairs s1 = ?h" "hook_pairs ?init = ?h" using s1(2) z(5) by simp_all
    have r: "run_calls (xs @ ys) ?init = (None, s2)"
      using s1(1) s2(1) by (simp add: run_calls_append)
    have c1: "prefill_count s2 = int ?h * int (length (filter has_inputs_embeds (xs @ ys)))"
      using s1(3) s2(2) z(1) unfolding hs by (simp add: algebra_simps)
    have c2: "decode_count s2
        = int ?h * (int (length (xs @ ys)) - int (length (filter has_inputs_embeds (xs @ ys))))"
      using s1(4) s2(3) z(2) unfolding hs by (simp add: algebra_simps)
    have c3: "hook_pairs model = 0 \<longrightarrow>
              prefill_count s2 = int (length (filter has_inputs_embeds (xs @ ys)))
            \<and> decode_count s2
                = int (length (xs @ ys)) - int (length (filter has_inputs_embeds (xs @ ys)))"
      using c1 c2 by simp
    have t: "list_all (clock_forward ?h) (xs @ ys) \<longrightarrow>
              0 \<le> prefill_time s1 \<and> prefill_time s1 \<le> prefill_time s2
            \<and> 0 \<le> decode_time s1 \<and> decode_time s1 \<le> decode_time s2"
      using s1(5) s2(4) z(3,4) unfolding hs by simp
    show ?thesis
      by (rule exI[of _ s1], rule exI[of _ s2]) (intro conjI s1(1) r c1 c2 c3 t)
  qed
  have B: "\<not> list_all passes_inputs_embeds cs \<longrightarrow>
        fst (run_calls cs ?init) = Some (KeyError ''inputs_embeds'')"
    using run_calls_keyless[of ?init cs] z(5) by simp
  show ?thesis using A B z(1-4) by blast
qed

theorem instrumentation_counters_witness:
  "list_all passes_inputs_embeds ([prefill_call] @ [decode_call, decode_call])
   \<and> list_all (clock_forward (Suc (hook_pairs uninstrumented)))
        ([prefill_call] @ [decode_call, decode_call])
   \<and> hook_pairs uninstrumented = 0
   \<and> length (filter has_inputs_embeds ([prefill_call] @ [decode_call, decode_call])) = 1
   \<and> \<not> list_all passes_inputs_embeds [decode_call, keyless_call]
   \<and> (\<exists>s1 s2. run_calls [prefill_call] (set_statistics_modules uninstrumented) = (None, s1)
        \<and> run_calls ([prefill_call] @ [decode_call, decode_call])
             (set_statistics_modules uninstrumented) = (None, s2)
        \<and> prefill_count s2 = 1 \<and> decode_count s2 = 2
        \<and> 0 \<le> prefill_time s1 \<and> prefill_time s1 \<le> prefill_time s2
        \<and> 0 \<le> decode_time s1 \<and> decode_time s1 \<le> decode_time s2)
   \<and> fst (run_calls [decode_call, keyless_call] (set_statistics_modules uninstrumented))
        = Some (KeyError ''inputs_embeds'')"
proof -
  have he: "has_inputs_embeds prefill_call" "\<not> has_inputs_embeds decode_call"
    by (simp_all add: has_inputs_embeds_def prefill_call_def decode_call_def dict_get_def)
  have pe: "passes_inputs_embeds prefill_call" "passes_inputs_embeds decode_call"
    "\<not> passes_inputs_embeds keyless_call"
    by (simp_all add: passes_inputs_embeds_def prefill_call_def decode_call_def keyless_call_def
        dict_get_def)
  have h: "hook_pairs uninstrumented = 0" by (simp add: uninstrumented_def)
  have ck: "clock_forward (Suc 0) prefill_call" "clock_forward (Suc 0) decode_call"
    by (simp_all add: clock_forward_def prefill_call_def decode_call_def)
  show ?thesis
    using instrumentation_counters[of "[prefill_call]" "[decode_call, decode_call]"
        uninstrumented "[decode_call, keyless_call]"]
    by (auto simp: he pe h ck)
qed

theorem instrumentation_counters_counterexample:
  "length [keyless_call] = 1 \<and> length (filter has_inputs_embeds [keyless_call]) = 0
   \<and> fst (run_calls [keyless_call] (set_statistics_modules uninstrumented))
       = Some (KeyError ''inputs_embeds'')
   \<and> length (filter has_inputs_embeds [backward_clock_call]) = 0
   \<and> run_calls [backward_clock_call] (set_statistics_modules uninstrumented) =
       (None, \<lparr>prefill_count = 0, prefill_time = 0, decode_time = - 2, decode_count = 1,
               start_time = Some 5, hook_pairs = 1\<rparr>)
   \<and> length [decode_call] = 1 \<and> length (filter has_inputs_embeds [decode_call]) = 0
   \<and> run_calls [decode_call] (set_statistics_modules (set_statistics_modules uninstrumented)) =
       (None, \<lparr>prefill_count = 0, prefill_time = 0, decode_time = 2, decode_count = 2,
               start_time = Some 12, hook_pairs = 2\<rparr>)"
  by (simp add: forward_hooks_def pre_hooks_eq end_time_hook_def Let_def keyless_call_def
      backward_clock_call_def decode_call_def set_statistics_modules_def uninstrumented_def
      has_inputs_embeds_def dict_get_def upt_conv_Cons)

text \<open>
  C10. The post-call hook reads \<^verbatim>\<open>kwargs['inputs_embeds']\<close> unconditionally: a forward
  call whose keyword arguments lack the key raises \<^verbatim>\<open>KeyError\<close> and is not counted as a
  decode call; a call that passes the key, with any value, is classified. The same holds
  of a model with any number of hook pairs, as long as it has one.
\<close>

theorem end_time_hook_key_error:
  "(dict_get kw ''inputs_embeds'' = None \<longrightarrow>
      end_time_hook (start_time_hook md t0) kw now = Inl (KeyError ''inputs_embeds''))
   \<and> (\<not> passes_inputs_embeds c \<longrightarrow> forward c md = Inl (KeyError ''inputs_embeds''))
   \<and> (passes_inputs_embeds c \<longrightarrow> (\<exists>md'. forward c md = Inr md'))
   \<and> (\<not> passes_inputs_embeds c \<longrightarrow>
        fst (forward_hooks c (set_statistics_modules md)) = Some (KeyError ''inputs_embeds''))
   \<and> (passes_inputs_embeds c \<longrightarrow> fst (forward_hooks c (set_statistics_modules md)) = None)"
proof -
  have 1: "(dict_get kw ''inputs_embeds'' = None \<longrightarrow>
      end_time_hook (start_time_hook md t0) kw now = Inl (KeyError ''inputs_embeds''))
   \<and> (\<not> passes_inputs_embeds c \<longrightarrow> forward c md = Inl (KeyError ''inputs_embeds''))
   \<and> (passes_inputs_embeds c \<longrightarrow> (\<exists>md'. forward c md = Inr md'))"
    by (auto simp: forward_cases passes_inputs_embeds_def end_time_hook_def start_time_hook_def
        split: option.splits)
  have 2: "\<not> passes_inputs_embeds c \<longrightarrow>
        fst (forward_hooks c (set_statistics_modules md)) = Some (KeyError ''inputs_embeds'')"
    using forward_hooks_keyless[of "set_statistics_modules md" c]
    by (simp add: set_statistics_modules_fields)
  have 3: "passes_inputs_embeds c \<longrightarrow> fst (forward_hooks c (set_statistics_modules md)) = None"
    using forward_hooks_ok[of c "set_statistics_modules md"] by auto
  show ?thesis using 1 2 3 by blast
qed

theorem end_time_hook_key_error_witness:
  "dict_get (kwargs keyless_call) ''inputs_embeds'' = None
   \<and> \<not> passes_inputs_embeds keyless_call
   \<and> forward keyless_call (set_statistics_modules uninstrumented)
       = Inl (KeyError ''inputs_embeds'')
   \<and> passes_inputs_embeds decode_call
   \<and> (\<exists>md'. forward decode_call (set_statistics_modules uninstrumented) = Inr md')
   \<and> fst (forward_hooks keyless_call
            (set_statistics_modules (set_statistics_modules uninstrumented)))
       = Some (KeyError ''inputs_embeds'')
   \<and> fst (forward_hooks decode_call
            (set_statistics_modules (set_statistics_modules uninstrumented))) = None"
proof -
  have a: "dict_get (kwargs keyless_call) ''inputs_embeds'' = None"
    by (simp add: keyless_call_def dict_get_def)
  have b: "passes_inputs_embeds decode_call"
    by (simp add: passes_inputs_embeds_def decode_call_def dict_get_def)
  have c: "\<not> passes_inputs_embeds keyless_call"
    using a by (simp add: passes_inputs_embeds_def)
  show ?thesis
    using a b c
      end_time_hook_key_error[of "kwargs keyless_call" "set_statistics_modules uninstrumented"
        0 0 keyless_call]
      end_time_hook_key_error[of "kwargs keyless_call" "set_statistics_modules uninstrumented"
        0 0 decode_call]
    by blast
qed

section \<open>Properties of the orchestrator\<close>

lemma seed_phase_accepted:
  "seeds_accepted args \<Longrightarrow>
   seed_phase args =
     (None,
      (case arg_random_seed args of Some s \<Rightarrow> [Random_seed s] | None \<Rightarrow> [])
      @ (case arg_numpy_random_seed args of Some s \<Rightarrow> [Np_random_seed s] | None \<Rightarrow> [])
      @ (case arg_torch_random_seed args of Some s \<Rightarrow> [Torch_manual_seed s] | None \<Rightarrow> [])
      @ (if arg_random_seed args = None \<and> arg_numpy_random_seed args = None
            \<and> arg_torch_random_seed args = None then []
         else [Log INFO (Msg_seeds
                ((case arg_random_seed args of Some s \<Rightarrow> [Setting_random_seed s] | None \<Rightarrow> [])
                 @ (case arg_numpy_random_seed args of Some s \<Rightarrow> [Setting_numpy_seed s] | None \<Rightarrow> [])
                 @ (case arg_torch_random_seed args of Some s \<Rightarrow> [Setting_torch_seed s] | None \<Rightarrow> [])))]))"
  by (auto simp: seed_phase_def seed_torch_def seed_log_def seeds_accepted_def Let_def
      split: option.splits)

lemma seed_phase_refused:
  "arg_numpy_random_seed args = Some s \<Longrightarrow> \<not> np_random_seed_accepts s \<Longrightarrow>
     seed_phase args =
       (Some ValueError,
        (case arg_random_seed args of Some s \<Rightarrow> [Random_seed s] | None \<Rightarrow> []))"
  "(case arg_numpy_random_seed args of Some s \<Rightarrow> np_random_seed_accepts s | None \<Rightarrow> True) \<Longrightarrow>
   arg_torch_random_seed args = Some s \<Longrightarrow> \<not> torch_manual_seed_accepts s \<Longrightarrow>
     seed_phase args =
       (Some RuntimeError,
        (case arg_random_seed args of Some s \<Rightarrow> [Random_seed s] | None \<Rightarrow> [])
        @ (case arg_numpy_random_seed args of Some s \<Rightarrow> [Np_random_seed s] | None \<Rightarrow> []))"
  by (auto simp: seed_phase_def seed_torch_def Let_def split: option.splits)

lemma seed_phase_seeding: "list_all seeding_event (snd (seed_phase args))"
  by (auto simp: seed_phase_def seed_torch_def seed_log_def Let_def split: option.splits)

lemma seed_phase_no_work:
  "looked_up (snd (seed_phase args)) = []"
  "created_with (snd (seed_phase args)) = []"
  "evaluate_calls (snd (seed_phase args)) = []"
  by (auto simp: seed_phase_def seed_torch_def seed_log_def Let_def split: option.splits)


lemma eval_snd:
  "snd (eval env self llmc args) = fst (snd (eval_body env self llmc (rebind self args)))"
  by (simp add: eval_def eval_run_def)

lemma rebind_idem:
  "rebind self (args\<lparr>arg_model_args := a, arg_batch_size := b, arg_tasks := ts,
                    arg_num_fewshot := n\<rparr>) = rebind self args"
  by (simp add: rebind_def)

lemma rebind_fields:
  "arg_model_args (rebind self args) = PStr (''pretrained='' @ model_path self @ '',device_map=auto'')"
  "arg_batch_size (rebind self args) = PInt (eval_bs self)"
  "arg_tasks (rebind self args) = Some (eval_dataset_name self)"
  "arg_num_fewshot (rebind self args) = Some 0"
  "arg_predict_only (rebind self args) = arg_predict_only args"
  "arg_device (rebind self args) = arg_device args"
  "arg_datetime_str (rebind self args) = arg_datetime_str args"
  "evaluate_kwargs (rebind self args) = evaluate_kwargs args"
  "arg_random_seed (rebind self args) = arg_random_seed args"
  "arg_numpy_random_seed (rebind self args) = arg_numpy_random_seed args"
  "arg_torch_random_seed (rebind self args) = arg_torch_random_seed args"
  by (simp_all add: rebind_def evaluate_kwargs_def)

lemma seed_torch_rebind: "seed_torch (rebind self args) p = seed_torch args p"
  by (simp add: seed_torch_def rebind_fields)

lemma seed_phase_rebind: "seed_phase (rebind self args) = seed_phase args"
  by (simp add: seed_phase_def seed_torch_rebind rebind_fields Let_def split: option.splits)

text \<open>
  C3, as the code has it. When the task list taken from the configuration is empty,
  \<^verbatim>\<open>eval\<close> fails, and by then it has done nothing but seeding: no task lookup, no hook
  registered on the model, no adapter constructed, no evaluator call. When numpy and
  torch accept the seeds given, the failure is the assertion error, and the seeds that
  are not \<^verbatim>\<open>None\<close> have been set and logged before it (lines 103 to 118 precede the
  assertion). A numpy seed outside \<open>0 .. 2^32 - 1\<close> fails with \<^verbatim>\<open>ValueError\<close> instead, and
  a torch seed outside \<open>-2^63 .. 2^64 - 1\<close> with \<^verbatim>\<open>RuntimeError\<close>, before the log line.
\<close>

theorem empty_task_list_fails:
  assumes "eval_dataset_name self = []"
  shows "(\<exists>e. fst (eval env self llmc args) = Inl e)
       \<and> list_all seeding_event (snd (eval env self llmc args))
       \<and> looked_up (snd (eval env self llmc args)) = []
       \<and> created_with (snd (eval env self llmc args)) = []
       \<and> evaluate_calls (snd (eval env self llmc args)) = []
       \<and> eval_model env self llmc args = vlm_model llmc
       \<and> (seeds_accepted args \<longrightarrow>
            fst (eval env self llmc args) = Inl AssertionError
          \<and> eval env self llmc args = (Inl AssertionError, snd (seed_phase args))
          \<and> filter sets_seed (snd (eval env self llmc args)) =
              (case arg_random_seed args of Some s \<Rightarrow> [Random_seed s] | None \<Rightarrow> [])
              @ (case arg_numpy_random_seed args of Some s \<Rightarrow> [Np_random_seed s] | None \<Rightarrow> [])
              @ (case arg_torch_random_seed args of Some s \<Rightarrow> [Torch_manual_seed s] | None \<Rightarrow> []))
       \<and> (arg_numpy_random_seed args = Some n \<longrightarrow> \<not> np_random_seed_accepts n \<longrightarrow>
            eval env self llmc args =
              (Inl ValueError,
               (case arg_random_seed args of Some s \<Rightarrow> [Random_seed s] | None \<Rightarrow> [])))
       \<and> ((case arg_numpy_random_seed args of Some s \<Rightarrow> np_random_seed_accepts s | None \<Rightarrow> True)
            \<longrightarrow> arg_torch_random_seed args = Some t \<longrightarrow> \<not> torch_manual_seed_accepts t \<longrightarrow>
            eval env self llmc args =
              (Inl RuntimeError,
               (case arg_random_seed args of Some s \<Rightarrow> [Random_seed s] | None \<Rightarrow> [])
               @ (case arg_numpy_random_seed args of Some s \<Rightarrow> [Np_random_seed s] | None \<Rightarrow> [])))"
proof -
  have b: "eval_body env self llmc (rebind self args) =
      (case seed_phase args of
         (Some e, tr1) \<Rightarrow> (Inl e, tr1, vlm_model llmc)
       | (None, tr1) \<Rightarrow> (Inl AssertionError, tr1, vlm_model llmc))"
    using assms
    by (simp add: eval_body_def Let_def seed_phase_rebind rebind_fields
        split: prod.splits option.splits)
  obtain se tr1 where sp: "seed_phase args = (se, tr1)" by (cases "seed_phase args")
  have e: "eval env self llmc args
      = ((case se of Some e \<Rightarrow> Inl e | None \<Rightarrow> Inl AssertionError), tr1)"
    "eval_model env self llmc args = vlm_model llmc"
    unfolding eval_def eval_model_def eval_run_def b sp by (simp_all split: option.splits)
  have t: "list_all seeding_event tr1" "looked_up tr1 = []" "created_with tr1 = []"
    "evaluate_calls tr1 = []"
    using seed_phase_seeding[of args] seed_phase_no_work[of args] sp by simp_all
  have 1: "\<exists>e. fst (eval env self llmc args) = Inl e"
    unfolding e by (cases se) simp_all
  have 2: "seeds_accepted args \<longrightarrow>
            fst (eval env self llmc args) = Inl AssertionError
          \<and> eval env self llmc args = (Inl AssertionError, snd (seed_phase args))
          \<and> filter sets_seed (snd (eval env self llmc args)) =
              (case arg_random_seed args of Some s \<Rightarrow> [Random_seed s] | None \<Rightarrow> [])
              @ (case arg_numpy_random_seed args of Some s \<Rightarrow> [Np_random_seed s] | None \<Rightarrow> [])
              @ (case arg_torch_random_seed args of Some s \<Rightarrow> [Torch_manual_seed s] | None \<Rightarrow> [])"
  proof
    assume acc: "seeds_accepted args"
    from seed_phase_accepted[OF acc] sp have se: "se = None" and tr: "tr1 =
      (case arg_random_seed args of Some s \<Rightarrow> [Random_seed s] | None \<Rightarrow> [])
      @ (case arg_numpy_random_seed args of Some s \<Rightarrow> [Np_random_seed s] | None \<Rightarrow> [])
      @ (case arg_torch_random_seed args of Some s \<Rightarrow> [Torch_manual_seed s] | None \<Rightarrow> [])
      @ (if arg_random_seed args = None \<and> arg_numpy_random_seed args = None
            \<and> arg_torch_random_seed args = None then []
         else [Log INFO (Msg_seeds
                ((case arg_random_seed args of Some s \<Rightarrow> [Setting_random_seed s] | None \<Rightarrow> [])
                 @ (case arg_numpy_random_seed args of Some s \<Rightarrow> [Setting_numpy_seed s] | None \<Rightarrow> [])
                 @ (case arg_torch_random_seed args of Some s \<Rightarrow> [Setting_torch_seed s] | None \<Rightarrow> [])))])"
      by simp_all
    have f: "filter sets_seed tr1 =
              (case arg_random_seed args of Some s \<Rightarrow> [Random_seed s] | None \<Rightarrow> [])
              @ (case arg_numpy_random_seed args of Some s \<Rightarrow> [Np_random_seed s] | None \<Rightarrow> [])
              @ (case arg_torch_random_seed args of Some s \<Rightarrow> [Torch_manual_seed s] | None \<Rightarrow> [])"
      unfolding tr by (simp split: option.splits)
    show "fst (eval env self llmc args) = Inl AssertionError
          \<and> eval env self llmc args = (Inl AssertionError, snd (seed_phase args))
          \<and> filter sets_seed (snd (eval env self llmc args)) =
              (case arg_random_seed args of Some s \<Rightarrow> [Random_seed s] | None \<Rightarrow> [])
              @ (case arg_numpy_random_seed args of Some s \<Rightarrow> [Np_random_seed s] | None \<Rightarrow> [])
              @ (case arg_torch_random_seed args of Some s \<Rightarrow> [Torch_manual_seed s] | None \<Rightarrow> [])"
      unfolding e using se f sp by simp
  qed
  have 3: "arg_numpy_random_seed args = Some n \<longrightarrow> \<not> np_random_seed_accepts n \<longrightarrow>
            eval env self llmc args =
              (Inl ValueError,
               (case arg_random_seed args of Some s \<Rightarrow> [Random_seed s] | None \<Rightarrow> []))"
    using seed_phase_refused(1)[of args n] sp unfolding e by auto
  have 4: "(case arg_numpy_random_seed args of Some s \<Rightarrow> np_random_seed_accepts s | None \<Rightarrow> True)
            \<longrightarrow> arg_torch_random_seed args = Some t \<longrightarrow> \<not> torch_manual_seed_accepts t \<longrightarrow>
            eval env self llmc args =
              (Inl RuntimeError,
               (case arg_random_seed args of Some s \<Rightarrow> [Random_seed s] | None \<Rightarrow> [])
               @ (case arg_numpy_random_seed args of Some s \<Rightarrow> [Np_random_seed s] | None \<Rightarrow> []))"
    using seed_phase_refused(2)[of args t] sp unfolding e by auto
  show ?thesis using 1 2 3 4 t e(2) unfolding e(1) by (simp add: sp)
qed

theorem empty_task_list_fails_witness:
  "eval_dataset_name (vqa_eval_init example_empty_config) = []
   \<and> seeds_accepted (default_args ''2026'')
   \<and> eval example_env (vqa_eval_init example_empty_config) example_llmc (default_args ''2026'')
       = (Inl AssertionError,
          [Random_seed 0, Np_random_seed 1234, Torch_manual_seed 1234,
           Log INFO (Msg_seeds [Setting_random_seed 0, Setting_numpy_seed 1234,
                                Setting_torch_seed 1234])])
   \<and> arg_numpy_random_seed ((default_args ''2026'')\<lparr>arg_numpy_random_seed := Some (- 1)\<rparr>)
       = Some (- 1)
   \<and> \<not> np_random_seed_accepts (- 1)
   \<and> eval example_env (vqa_eval_init example_empty_config) example_llmc
        ((default_args ''2026'')\<lparr>arg_numpy_random_seed := Some (- 1)\<rparr>)
       = (Inl ValueError, [Random_seed 0])"
proof -
  have a: "eval_dataset_name (vqa_eval_init example_empty_config) = []"
    by (simp add: vqa_eval_init_def example_empty_config_def)
  have acc: "seeds_accepted (default_args ''2026'')"
    by (simp add: seeds_accepted_def default_args_def np_random_seed_accepts_def
        torch_manual_seed_accepts_def)
  have s: "snd (seed_phase (default_args ''2026'')) =
          [Random_seed 0, Np_random_seed 1234, Torch_manual_seed 1234,
           Log INFO (Msg_seeds [Setting_random_seed 0, Setting_numpy_seed 1234,
                                Setting_torch_seed 1234])]"
    by (simp add: seed_phase_accepted[OF acc]) (simp add: default_args_def)
  have n: "\<not> np_random_seed_accepts (- 1)" by (simp add: np_random_seed_accepts_def)
  have r: "arg_random_seed ((default_args ''2026'')\<lparr>arg_numpy_random_seed := Some (- 1)\<rparr>)
      = Some 0"
    by (simp add: default_args_def)
  show ?thesis
    using a acc n
      empty_task_list_fails[OF a, where env=example_env and llmc=example_llmc
        and args="default_args ''2026''"]
      empty_task_list_fails[OF a, where env=example_env and llmc=example_llmc
        and args="(default_args ''2026'')\<lparr>arg_numpy_random_seed := Some (- 1)\<rparr>"
        and n="- 1"]
    unfolding s r by simp
qed

theorem seeds_set_before_failure:
  "eval_dataset_name (vqa_eval_init example_empty_config) = []
   \<and> fst (eval example_env (vqa_eval_init example_empty_config) example_llmc
            (default_args ''2026'')) = Inl AssertionError
   \<and> filter sets_seed (snd (eval example_env (vqa_eval_init example_empty_config) example_llmc
            (default_args ''2026'')))
       = [Random_seed 0, Np_random_seed 1234, Torch_manual_seed 1234]"
  by code_simp

lemma event_inv_logs: "list_all (event_inv Q ops0 ma0 bs0 ts0) (map (\<lambda>(lv, m). Log lv m) xs)"
  by (induction xs) auto

lemma event_inv_seed_phase: "list_all (event_inv Q ops0 ma0 bs0 ts0) (snd (seed_phase args))"
  by (auto simp: seed_phase_def seed_torch_def seed_log_def Let_def split: option.splits)

lemma event_inv_parse: "list_all (event_inv Q ops0 ma0 bs0 ts0) (snd (parse_gen_kwargs env g))"
  by (simp add: parse_gen_kwargs_def split: option.splits)

lemma event_inv_statistics:
  "statistics_report env md = Inr ev \<Longrightarrow> list_all (event_inv Q ops0 ma0 bs0 ts0) ev"
  by (auto simp: statistics_report_def Let_def split: if_splits)

lemma adjust_config_all_leaves:
  assumes "\<And>t. Q (adjusted_task gk po nf seed t)"
  shows "list_all (\<lambda>(n, t). Q t) (leaves_dict (fst (adjust_config gk po nf seed d st)))"
proof -
  have "\<forall>p \<in> set (leaves_dict (fst (adjust_config gk po nf seed d st))). Q (snd p)"
  proof
    fix p assume "p \<in> set (leaves_dict (fst (adjust_config gk po nf seed d st)))"
    with adjust_leaves_subset(2)[of gk po nf seed d st]
    obtain n t where "p = (n, adjusted_task gk po nf seed t)" by auto
    then show "Q (snd p)" using assms by simp
  qed
  then show ?thesis by (auto simp: list_all_iff)
qed

lemma eval_with_lm_inv:
  assumes q: "\<And>t. Q (adjusted_task (gen_kwargs_override gk) (arg_predict_only args)
                      (arg_num_fewshot args) (arg_fewshot_random_seed args) t)"
    and tr: "list_all (event_inv Q (evaluate_kwargs args) ma bs ts) tr"
  shows "list_all (event_inv Q (evaluate_kwargs args) ma bs ts)
           (fst (snd (eval_with_lm env self args model ma gk td0 lm0 md0 tr)))"
proof -
  obtain td1 st where r: "adjust_config (gen_kwargs_override gk) (arg_predict_only args)
             (arg_num_fewshot args) (arg_fewshot_random_seed args) td0 \<lparr>lm = lm0, log = []\<rparr>
             = (td1, st)"
    by (cases "adjust_config (gen_kwargs_override gk) (arg_predict_only args)
             (arg_num_fewshot args) (arg_fewshot_random_seed args) td0 \<lparr>lm = lm0, log = []\<rparr>")
  have l: "list_all (\<lambda>(n, t). Q t) (leaves_dict td1)"
    using adjust_config_all_leaves[of Q "gen_kwargs_override gk" "arg_predict_only args"
        "arg_num_fewshot args" "arg_fewshot_random_seed args" td0 "\<lparr>lm = lm0, log = []\<rparr>"] q r
    by simp
  show ?thesis
    unfolding eval_with_lm_def r
    using tr l
    by (auto simp: Let_def event_inv_logs split: option.splits sum.splits prod.splits
        dest: event_inv_statistics[where Q=Q and ?ops0.0="evaluate_kwargs args" and ?ma0.0=ma
                and ?bs0.0=bs and ?ts0.0=ts])
qed

lemma eval_body_inv:
  assumes q: "\<And>t. Q (adjusted_task
                      (gen_kwargs_override (fst (parse_gen_kwargs env (arg_gen_kwargs args))))
                      (arg_predict_only args) (arg_num_fewshot args)
                      (arg_fewshot_random_seed args) t)"
  shows "list_all (event_inv Q (evaluate_kwargs args)
            (if arg_model_args args = PNone then PStr [] else arg_model_args args)
            (arg_batch_size args) (arg_tasks args))
           (fst (snd (eval_body env self llmc args)))"
proof -
  obtain gk ev where p: "parse_gen_kwargs env (arg_gen_kwargs args) = (gk, ev)"
    by (cases "parse_gen_kwargs env (arg_gen_kwargs args)")
  obtain se tr1 where sp: "seed_phase args = (se, tr1)" by (cases "seed_phase args")
  have t1: "list_all (event_inv Q (evaluate_kwargs args)
            (if arg_model_args args = PNone then PStr [] else arg_model_args args)
            (arg_batch_size args) (arg_tasks args)) tr1"
    using event_inv_seed_phase[of Q _ _ _ _ args] sp by simp
  have ev: "list_all (event_inv Q (evaluate_kwargs args)
            (if arg_model_args args = PNone then PStr [] else arg_model_args args)
            (arg_batch_size args) (arg_tasks args)) ev"
    using event_inv_parse[of Q _ _ _ _ env "arg_gen_kwargs args"] p by simp
  have q': "\<And>t. Q (adjusted_task (gen_kwargs_override gk) (arg_predict_only args)
                      (arg_num_fewshot args) (arg_fewshot_random_seed args) t)"
    using q p by simp
  note inv = eval_with_lm_inv[where Q=Q and gk=gk and args=args, OF q']
  show ?thesis
    unfolding eval_body_def p sp
    using ev t1
    by (auto simp: Let_def split: option.splits sum.splits intro!: inv)
qed

lemma event_inv_evaluate_calls:
  "list_all (event_inv Q ops0 ma0 bs0 ts0) tr \<Longrightarrow>
     list_all (\<lambda>(l, td, ops). ops = ops0 \<and> list_all (\<lambda>(n, t). Q t) (leaves_dict td))
       (evaluate_calls tr)"
  by (induction tr rule: evaluate_calls.induct) auto

lemma event_inv_created_with:
  "list_all (event_inv Q ops0 ma0 bs0 ts0) tr \<Longrightarrow>
     list_all (\<lambda>(ma, bs). ma = ma0 \<and> bs = bs0) (created_with tr)"
  by (induction tr rule: created_with.induct) auto

lemma event_inv_looked_up:
  "list_all (event_inv Q ops0 ma0 bs0 ts0) tr \<Longrightarrow> list_all (\<lambda>ts. ts = ts0) (looked_up tr)"
  by (induction tr rule: looked_up.induct) auto

lemma list_all_weaken: "list_all P xs \<Longrightarrow> (\<And>x. P x \<Longrightarrow> R x) \<Longrightarrow> list_all R xs"
  by (induction xs) auto

text \<open>
  C6. The caller's \<^verbatim>\<open>model_args\<close>, \<^verbatim>\<open>batch_size\<close>, \<^verbatim>\<open>tasks\<close> and \<^verbatim>\<open>num_fewshot\<close> have
  no effect: two invocations that differ only in them give the same result and the same
  trace. The few-shot override is always 0, every task object handed to the evaluator
  has the few-shot count 0, every adapter is constructed with the model arguments made
  from the constructor's model path and with the configured batch size, and every task
  lookup is for the configured task list.
\<close>

theorem caller_arguments_overwritten:
  "eval env self llmc (args\<lparr>arg_model_args := a, arg_batch_size := b, arg_tasks := ts,
                           arg_num_fewshot := n\<rparr>) = eval env self llmc args
   \<and> arg_num_fewshot (rebind self args) = Some 0
   \<and> list_all (\<lambda>(l, td, ops). list_all (\<lambda>(n, t). num_fewshot t = Some 0) (leaves_dict td))
        (evaluate_calls (snd (eval env self llmc args)))
   \<and> list_all (\<lambda>(ma, bs). ma = PStr (''pretrained='' @ model_path self @ '',device_map=auto'')
                          \<and> bs = PInt (eval_bs self))
        (created_with (snd (eval env self llmc args)))
   \<and> list_all (\<lambda>ts. ts = Some (eval_dataset_name self)) (looked_up (snd (eval env self llmc args)))"
proof -
  let ?Q = "\<lambda>t. num_fewshot t = Some 0"
  have q: "\<And>t. ?Q (adjusted_task
             (gen_kwargs_override (fst (parse_gen_kwargs env (arg_gen_kwargs (rebind self args)))))
             (arg_predict_only (rebind self args)) (arg_num_fewshot (rebind self args))
             (arg_fewshot_random_seed (rebind self args)) t)"
    by (simp add: rebind_fields adjusted_task_fields spec_fewshot_def)
  have inv: "list_all (event_inv ?Q (evaluate_kwargs args)
               (PStr (''pretrained='' @ model_path self @ '',device_map=auto''))
               (PInt (eval_bs self)) (Some (eval_dataset_name self)))
             (snd (eval env self llmc args))"
    using eval_body_inv[of ?Q env "rebind self args" self llmc, OF q]
    by (simp add: eval_snd rebind_fields)
  have 1: "eval env self llmc (args\<lparr>arg_model_args := a, arg_batch_size := b, arg_tasks := ts,
                           arg_num_fewshot := n\<rparr>) = eval env self llmc args"
    by (simp add: eval_def eval_run_def rebind_idem)
  have 2: "list_all (\<lambda>(l, td, ops). list_all (\<lambda>(n, t). num_fewshot t = Some 0) (leaves_dict td))
        (evaluate_calls (snd (eval env self llmc args)))"
    by (rule list_all_weaken[OF event_inv_evaluate_calls[OF inv]]) auto
  have 3: "list_all (\<lambda>(ma, bs). ma = PStr (''pretrained='' @ model_path self @ '',device_map=auto'')
                          \<and> bs = PInt (eval_bs self))
        (created_with (snd (eval env self llmc args)))"
    by (rule event_inv_created_with[OF inv])
  have 4: "list_all (\<lambda>ts. ts = Some (eval_dataset_name self))
        (looked_up (snd (eval env self llmc args)))"
    by (rule event_inv_looked_up[OF inv])
  show ?thesis using 1 2 3 4 by (simp add: rebind_fields)
qed

theorem caller_arguments_overwritten_witness:
  "eval example_env (vqa_eval_init example_config) example_llmc
     ((default_args ''2026'')\<lparr>arg_model_args := PStr ''pretrained=/other'',
                               arg_batch_size := PInt 64, arg_tasks := Some [''taskZ''],
                               arg_num_fewshot := Some 5\<rparr>)
     = eval example_env (vqa_eval_init example_config) example_llmc (default_args ''2026'')
   \<and> map (\<lambda>(l, td, ops). map (\<lambda>(n, t). (n, num_fewshot t)) (leaves_dict td))
       (evaluate_calls (snd (eval example_env (vqa_eval_init example_config) example_llmc
          (default_args ''2026''))))
       = [[(''taskA'', Some 0), (''taskB'', Some 0)]]
   \<and> created_with (snd (eval example_env (vqa_eval_init example_config) example_llmc
          (default_args ''2026'')))
       = [(PStr ''pretrained=/models/x,device_map=auto'', PInt 4)]
   \<and> looked_up (snd (eval example_env (vqa_eval_init example_config) example_llmc
          (default_args ''2026''))) = [Some [''taskA'']]"
proof -
  have c: "map (\<lambda>(l, td, ops). map (\<lambda>(n, t). (n, num_fewshot t)) (leaves_dict td))
       (evaluate_calls (snd (eval example_env (vqa_eval_init example_config) example_llmc
          (default_args ''2026''))))
       = [[(''taskA'', Some 0), (''taskB'', Some 0)]]
   \<and> created_with (snd (eval example_env (vqa_eval_init example_config) example_llmc
          (default_args ''2026'')))
       = [(PStr ''pretrained=/models/x,device_map=auto'', PInt 4)]
   \<and> looked_up (snd (eval example_env (vqa_eval_init example_config) example_llmc
          (default_args ''2026''))) = [Some [''taskA'']]"
    by code_simp
  show ?thesis
    using c caller_arguments_overwritten[where env=example_env
        and self="vqa_eval_init example_config" and llmc=example_llmc
        and args="default_args ''2026''" and a="PStr ''pretrained=/other''" and b="PInt 64"
        and ts="Some [''taskZ'']" and n="Some 5"]
    by blast
qed

text \<open>
  C8. With \<^verbatim>\<open>predict_only\<close> set, the visit of a task object leaves it with the metric
  \<^verbatim>\<open>bypass\<close>; its few-shot count, generation parameters and few-shot seed are the ones
  it gets without \<^verbatim>\<open>predict_only\<close>. Every task object of the adjusted dictionary has the
  bypass metric, and every call of the evaluator gets \<^verbatim>\<open>log_samples\<close> true and task
  objects with the bypass metric, whatever \<^verbatim>\<open>log_samples\<close> the caller passed.
\<close>

theorem predict_only_bypass:
  "metric_list (fst (adjust_leaf gk True nf seed n t st)) = [''bypass'']
   \<and> num_fewshot (fst (adjust_leaf gk True nf seed n t st))
       = num_fewshot (fst (adjust_leaf gk False nf seed n t st))
   \<and> generation_kwargs (fst (adjust_leaf gk True nf seed n t st))
       = generation_kwargs (fst (adjust_leaf gk False nf seed n t st))
   \<and> fewshot_seed (fst (adjust_leaf gk True nf seed n t st))
       = fewshot_seed (fst (adjust_leaf gk False nf seed n t st))
   \<and> list_all (\<lambda>(n, t). metric_list t = [''bypass''])
        (leaves_dict (fst (adjust_config gk True nf seed d st)))
   \<and> opt_log_samples (evaluate_kwargs (args\<lparr>arg_predict_only := True\<rparr>))
   \<and> list_all (\<lambda>(l, td, ops). opt_log_samples ops
                  \<and> list_all (\<lambda>(n, t). metric_list t = [''bypass'']) (leaves_dict td))
        (evaluate_calls (snd (eval env self llmc (args\<lparr>arg_predict_only := True\<rparr>))))"
proof -
  let ?args = "args\<lparr>arg_predict_only := True\<rparr>"
  let ?Q = "\<lambda>t. metric_list t = [''bypass'']"
  have q: "\<And>t. ?Q (adjusted_task
             (gen_kwargs_override (fst (parse_gen_kwargs env (arg_gen_kwargs (rebind self ?args)))))
             (arg_predict_only (rebind self ?args)) (arg_num_fewshot (rebind self ?args))
             (arg_fewshot_random_seed (rebind self ?args)) t)"
    by (simp add: rebind_fields adjusted_task_fields)
  have inv: "list_all (event_inv ?Q (evaluate_kwargs ?args)
               (PStr (''pretrained='' @ model_path self @ '',device_map=auto''))
               (PInt (eval_bs self)) (Some (eval_dataset_name self)))
             (snd (eval env self llmc ?args))"
    using eval_body_inv[of ?Q env "rebind self ?args" self llmc, OF q]
    by (simp add: eval_snd rebind_fields)
  have ls: "opt_log_samples (evaluate_kwargs ?args)" by (simp add: evaluate_kwargs_def)
  have 1: "list_all (\<lambda>(l, td, ops). opt_log_samples ops
                  \<and> list_all (\<lambda>(n, t). metric_list t = [''bypass'']) (leaves_dict td))
        (evaluate_calls (snd (eval env self llmc ?args)))"
    by (rule list_all_weaken[OF event_inv_evaluate_calls[OF inv]]) (use ls in auto)
  have 2: "list_all (\<lambda>(n, t). metric_list t = [''bypass''])
        (leaves_dict (fst (adjust_config gk True nf seed d st)))"
    by (rule adjust_config_all_leaves) (simp add: adjusted_task_fields)
  show ?thesis using 1 2 ls by (simp add: adjust_leaf_task adjusted_task_fields)
qed

theorem predict_only_bypass_witness:
  "metric_list (fst (adjust_leaf None True None 1234 ''taskA'' example_task example_state))
     = [''bypass'']
   \<and> num_fewshot (fst (adjust_leaf None True None 1234 ''taskA'' example_task example_state))
     = Some 0
   \<and> num_fewshot (fst (adjust_leaf None False None 1234 ''taskA'' example_task example_state))
     = Some 0
   \<and> map (\<lambda>(l, td, ops). (map (\<lambda>(n, t). (n, metric_list t)) (leaves_dict td),
                            opt_log_samples ops))
       (evaluate_calls (snd (eval example_env (vqa_eval_init example_config) example_llmc
          ((default_args ''2026'')\<lparr>arg_log_samples := False, arg_predict_only := True\<rparr>))))
     = [([(''taskA'', [''bypass'']), (''taskB'', [''bypass''])], True)]"
proof -
  have c: "num_fewshot (fst (adjust_leaf None False None 1234 ''taskA'' example_task example_state))
     = Some 0
   \<and> map (\<lambda>(l, td, ops). (map (\<lambda>(n, t). (n, metric_list t)) (leaves_dict td),
                            opt_log_samples ops))
       (evaluate_calls (snd (eval example_env (vqa_eval_init example_config) example_llmc
          ((default_args ''2026'')\<lparr>arg_log_samples := False, arg_predict_only := True\<rparr>))))
     = [([(''taskA'', [''bypass'']), (''taskB'', [''bypass''])], True)]"
    by code_simp
  show ?thesis
    using c predict_only_bypass[where gk=None and nf=None and seed=1234 and n="''taskA''"
        and t=example_task and st=example_state and d=example_tree
        and args="(default_args ''2026'')\<lparr>arg_log_samples := False\<rparr>"
        and env=example_env and self="vqa_eval_init example_config" and llmc=example_llmc]
    by simp
qed









end
